theory Spec2Isabelle
  imports Complex_Main "HOL-Library.Log_Nat"
begin

text \<open>
  A model of the generation pipeline of \<open>src/utils/leonardoService.ts\<close> and of the
  description parser \<open>separateChineseAndEnglishText\<close>: the retry wrapper, the two
  functions that wait for a generation, the upload of an image, the size and the element
  weights of a generation request. Definitions come first, each translated from the
  source function it is named after; the properties follow.
\<close>

section \<open>JavaScript numbers\<close>

text \<open>
  A JavaScript number is an IEEE 754 binary64 value. The finite ones are rationals, and
  each arithmetic operator returns the exact result rounded to the nearest value with a
  53-bit significand, ties to the even significand. The model keeps numbers as \<open>rat\<close> and
  writes that rounding out as \<open>fl\<close>. The exponent range is left unbounded: overflow to
  Infinity, gradual underflow and NaN are not represented, so the model is exact for
  magnitudes between \<open>2^-1022\<close> and \<open>2^1023\<close>, which covers every value the modelled
  code computes from image sizes and element weights.
\<close>

definition pow2 :: "int \<Rightarrow> rat" where
  "pow2 k = (if 0 \<le> k then 2 ^ nat k else 1 / 2 ^ nat (- k))"

text \<open>\<open>ilog2 x\<close> is the binary exponent of a positive \<open>x\<close>: \<open>2^e \<le> x < 2^(e+1)\<close>.\<close>

definition ilog2 :: "rat \<Rightarrow> int" where
  "ilog2 x = (if 1 \<le> x then bitlen \<lfloor>x\<rfloor> - 1 else - bitlen (\<lceil>1 / x\<rceil> - 1))"

definition round_even :: "rat \<Rightarrow> int" where
  "round_even q =
     (let f = \<lfloor>q\<rfloor>; d = q - of_int f
      in if d < 1 / 2 then f else if 1 / 2 < d then f + 1 else if even f then f else f + 1)"

definition fl :: "rat \<Rightarrow> rat" where
  "fl x =
     (if x = 0 then 0
      else let u = pow2 (ilog2 \<bar>x\<bar> - 52) in of_int (round_even (x / u)) * u)"

text \<open>The operators \<open>/\<close>, \<open>*\<close>, \<open>+\<close>, \<open>-\<close> on numbers, and the \<open>Math\<close> functions used.\<close>

definition jdiv :: "rat \<Rightarrow> rat \<Rightarrow> rat" where
  "jdiv a b = fl (a / b)"

definition jmul :: "rat \<Rightarrow> rat \<Rightarrow> rat" where
  "jmul a b = fl (a * b)"

definition jadd :: "rat \<Rightarrow> rat \<Rightarrow> rat" where
  "jadd a b = fl (a + b)"

definition jsub :: "rat \<Rightarrow> rat \<Rightarrow> rat" where
  "jsub a b = fl (a - b)"

definition Math_floor :: "rat \<Rightarrow> rat" where
  "Math_floor x = of_int \<lfloor>x\<rfloor>"

text \<open>\<open>Math.round\<close> rounds to the nearest integer, a tie towards plus infinity.\<close>

definition Math_round :: "rat \<Rightarrow> rat" where
  "Math_round x = of_int \<lfloor>x + 1 / 2\<rfloor>"

text \<open>
  \<open>Number(x.toFixed(2))\<close>: \<open>toFixed\<close> picks the integer \<open>n\<close> with \<open>n / 100\<close> nearest to the
  exact value of \<open>x\<close> (the larger \<open>n\<close> on a tie, on the absolute value when \<open>x\<close> is
  negative), prints it with two decimals, and \<open>Number\<close> reads the decimal back as the
  nearest binary64 value.
\<close>

definition toFixed2 :: "rat \<Rightarrow> rat" where
  "toFixed2 x =
     (if x < 0 then fl (- (of_int \<lfloor>- x * 100 + 1 / 2\<rfloor> / 100))
      else fl (of_int \<lfloor>x * 100 + 1 / 2\<rfloor> / 100))"

section \<open>Output size of a generation request\<close>

text \<open>
  \<open>processWithImageToImageAndStyle\<close> (leonardoService.ts lines 1073 to 1197) and
  \<open>processImageWithAdvancedFeatures\<close> (lines 517 to 641) compute the output size of the
  request with the same statements; only the guard around them differs. The shared
  statements are \<open>normalizeDimensions\<close>: first the branch on the aspect ratio
  (\<open>fitAspectRatio\<close>), then the check of the pixel count (\<open>limitPixelCount\<close>).
  \<open>floor8 x\<close> is the source expression \<open>Math.floor(x / 8) * 8\<close>. \<open>Math.sqrt\<close> is a
  built-in of the runtime and is a parameter of the model.
\<close>

definition minDimension :: rat where
  "minDimension = 512"

definition maxDimension :: rat where
  "maxDimension = 768"

definition pixelLimit :: rat where
  "pixelLimit = 589824"

definition floor8 :: "rat \<Rightarrow> rat" where
  "floor8 x = jmul (Math_floor (jdiv x 8)) 8"

definition fitAspectRatio :: "rat \<Rightarrow> rat \<times> rat" where
  "fitAspectRatio aspectRatio =
     (if 1 \<le> aspectRatio then
        let outputHeight = max minDimension (floor8 minDimension);
            outputWidth = floor8 (jmul outputHeight aspectRatio)
        in if maxDimension < outputWidth then
             let outputWidth = floor8 maxDimension;
                 outputHeight = floor8 (jdiv outputWidth aspectRatio)
             in if outputHeight < minDimension
                then (outputWidth, floor8 minDimension)
                else (outputWidth, outputHeight)
           else (outputWidth, outputHeight)
      else
        let outputWidth = max minDimension (floor8 minDimension);
            outputHeight = floor8 (jdiv outputWidth aspectRatio)
        in if maxDimension < outputHeight then
             let outputHeight = floor8 maxDimension;
                 outputWidth = floor8 (jmul outputHeight aspectRatio)
             in if outputWidth < minDimension
                then (floor8 minDimension, outputHeight)
                else (outputWidth, outputHeight)
           else (outputWidth, outputHeight))"

definition limitPixelCount :: "(rat \<Rightarrow> rat) \<Rightarrow> rat \<times> rat \<Rightarrow> rat \<times> rat" where
  "limitPixelCount Math_sqrt dims =
     (let outputWidth = fst dims;
          outputHeight = snd dims;
          pixelCount = jmul outputWidth outputHeight
      in if pixelLimit < pixelCount then
           let scaleFactor = Math_sqrt (jdiv pixelLimit pixelCount);
               scaledWidth = floor8 (jmul outputWidth scaleFactor);
               scaledHeight = floor8 (jmul outputHeight scaleFactor)
           in (if scaledWidth < minDimension then floor8 minDimension else scaledWidth,
               if scaledHeight < minDimension then floor8 minDimension else scaledHeight)
         else (outputWidth, outputHeight))"

definition normalizeDimensions :: "(rat \<Rightarrow> rat) \<Rightarrow> rat \<Rightarrow> rat \<Rightarrow> rat \<times> rat" where
  "normalizeDimensions Math_sqrt width height =
     limitPixelCount Math_sqrt (fitAspectRatio (jdiv width height))"

text \<open>
  The two call sites. \<open>processWithImageToImageAndStyle\<close> takes
  \<open>dimensions: {width, height} | null\<close> and normalises when both are positive;
  \<open>processImageWithAdvancedFeatures\<close> takes optional \<open>width\<close> and \<open>height\<close> and
  normalises when both are truthy, that is present and not zero. Otherwise the size
  stays at the default 512 by 512.
\<close>

definition imageToImageOutputSize ::
  "(rat \<Rightarrow> rat) \<Rightarrow> (rat \<times> rat) option \<Rightarrow> rat \<times> rat" where
  "imageToImageOutputSize Math_sqrt dimensions =
     (case dimensions of
        None \<Rightarrow> (512, 512)
      | Some d \<Rightarrow>
          if 0 < fst d \<and> 0 < snd d then normalizeDimensions Math_sqrt (fst d) (snd d)
          else (512, 512))"

definition advancedOutputSize ::
  "(rat \<Rightarrow> rat) \<Rightarrow> rat option \<Rightarrow> rat option \<Rightarrow> rat \<times> rat" where
  "advancedOutputSize Math_sqrt width height =
     (case width of
        None \<Rightarrow> (512, 512)
      | Some w \<Rightarrow>
          (case height of
             None \<Rightarrow> (512, 512)
           | Some h \<Rightarrow>
               if w \<noteq> 0 \<and> h \<noteq> 0 then normalizeDimensions Math_sqrt w h else (512, 512)))"

text \<open>The provider's requirement on one side of the output: a whole multiple of 8.\<close>

definition multiple_of_8 :: "rat \<Rightarrow> bool" where
  "multiple_of_8 x = (of_int \<lfloor>x / 8\<rfloor> * 8 = x)"

text \<open>The sizes the provider accepts on one side: the multiples of 8 from 512 to 768.\<close>

definition grid :: "rat \<Rightarrow> bool" where
  "grid x = (\<exists>n. 64 \<le> n \<and> n \<le> 96 \<and> x = of_int (8 * n))"

text \<open>The limits of claim C2 on a computed size.\<close>

definition within_limits :: "rat \<times> rat \<Rightarrow> bool" where
  "within_limits d =
     (multiple_of_8 (fst d) \<and> multiple_of_8 (snd d)
      \<and> minDimension \<le> fst d \<and> fst d \<le> maxDimension
      \<and> minDimension \<le> snd d \<and> snd d \<le> maxDimension
      \<and> fst d * snd d \<le> pixelLimit)"

section \<open>JavaScript strings\<close>

text \<open>
  A JavaScript string is a sequence of UTF-16 code units; the model keeps it as the list
  of their numbers, so that texts outside ASCII are ordinary inputs. \<open>ascii\<close> turns a
  literal of the theory into such a string.
\<close>

type_synonym jsstring = "nat list"

definition ascii :: "string \<Rightarrow> jsstring" where
  "ascii s = map of_char s"

text \<open>
  The code units matched by \<open>\s\<close> in a regular expression and removed by \<open>trim\<close>: the
  white space and line terminator characters of the language.
\<close>

definition is_space :: "nat \<Rightarrow> bool" where
  "is_space c =
     (c = 9 \<or> c = 10 \<or> c = 11 \<or> c = 12 \<or> c = 13 \<or> c = 32 \<or> c = 160 \<or> c = 5760
      \<or> (8192 \<le> c \<and> c \<le> 8202) \<or> c = 8232 \<or> c = 8233 \<or> c = 8239 \<or> c = 8287
      \<or> c = 12288 \<or> c = 65279)"

definition is_line_terminator :: "nat \<Rightarrow> bool" where
  "is_line_terminator c = (c = 10 \<or> c = 13 \<or> c = 8232 \<or> c = 8233)"














section \<open>Splitting the description into its two languages\<close>







section \<open>The network, the clock and the log\<close>

text \<open>
  What the modelled functions do to the outside is recorded in a \<open>world\<close>: the requests
  sent with \<open>fetch\<close>, the delays awaited with \<open>setTimeout\<close>, the uploads posted with
  \<open>XMLHttpRequest\<close> and the calls of the logger, each in order. The remote side is the
  field \<open>network\<close>: the outcome of the \<open>n\<close>-th call of \<open>fetch\<close>, counted from 0. An
  outcome is a response or a rejected promise.

  A response carries what the code reads of it: \<open>ok\<close>, \<open>status\<close>, the body as text
  (\<open>response.text()\<close>, which throws when the body cannot be read) and the parsed body
  (\<open>response.json()\<close>, which throws when the body is not JSON) with the two members the
  code looks at, \<open>generations_by_pk\<close> and \<open>uploadInitImage\<close>. A member that is absent
  is \<open>None\<close>. A thrown value is an \<open>Error\<close> with its message.
\<close>

datatype js_error = Error (message: jsstring)

datatype job_status = PENDING | COMPLETE | FAILED | OtherStatus jsstring

record generated_image =
  image_id :: "jsstring option"
  image_url :: "jsstring option"

record generation =
  gen_status :: job_status
  generated_images :: "generated_image list option"

record upload_init =
  init_id :: "jsstring option"
  init_url :: "jsstring option"
  init_fields :: "jsstring option"

record json_data =
  generations_by_pk :: "generation option"
  uploadInitImage :: "upload_init option"

record response =
  ok :: bool
  status :: nat
  body_text :: "js_error + jsstring"
  json :: "js_error + json_data"

datatype fetch_outcome = Resolves response | Rejects js_error

record request =
  url :: jsstring
  http_method :: jsstring
  body :: "jsstring option"

datatype log_level = Debug | Info | Warn | Err

text \<open>
  One constructor for each message the modelled code hands to the logger (the message
  texts are Chinese; the names translate them). The data logged with a message is kept
  only where it is a number of the control flow.
\<close>

datatype log_event =
    AttemptRequest int int
  | RequestFailed nat int
  | RequestErrored
  | GenerationStatus
  | GenerationComplete
  | GenerationCompleteWithUrl
  | GenerationFailed
  | UnknownStatus
  | PollingErrored
  | WaitTimedOut
  | StatusFetchFailed nat
  | CompleteWithoutUrl
  | WaitErrored
  | ImageDataEmpty
  | ProcessingImageData
  | BlobFromDataUrl
  | BlobFromDataUrlFailed
  | BlobFromFallback
  | BlobFallbackFailed
  | BlobFromBase64
  | BlobFromBase64Failed
  | NoValidBlob
  | PreparingUpload
  | PresignedUrlFailed nat
  | UploadInfoIncomplete
  | StartingS3Upload
  | S3UploadSucceeded nat
  | S3UploadStatusNot2xx nat
  | S3UploadXhrError
  | S3UploadFlowDone
  | S3UploadErrored
  | UploadImageErrored
  | ElementAdded jsstring
  | ElementIncompatible jsstring

record world =
  network :: "nat \<Rightarrow> fetch_outcome"
  requests :: "request list"
  sleeps :: "rat list"
  uploads :: "jsstring list"
  log :: "(log_level \<times> log_event) list"

definition fetch :: "request \<Rightarrow> world \<Rightarrow> fetch_outcome \<times> world" where
  "fetch req w = (network w (length (requests w)), w\<lparr>requests := requests w @ [req]\<rparr>)"

text \<open>The number of calls of \<open>fetch\<close> made so far.\<close>

definition fetch_count :: "world \<Rightarrow> nat" where
  "fetch_count w = length (requests w)"

definition sleep :: "rat \<Rightarrow> world \<Rightarrow> world" where
  "sleep ms w = w\<lparr>sleeps := sleeps w @ [ms]\<rparr>"

definition logger :: "log_level \<Rightarrow> log_event \<Rightarrow> world \<Rightarrow> world" where
  "logger lvl ev w = w\<lparr>log := log w @ [(lvl, ev)]\<rparr>"

text \<open>A string is truthy when it is present and not empty.\<close>

definition truthy :: "jsstring option \<Rightarrow> bool" where
  "truthy s = (case s of None \<Rightarrow> False | Some t \<Rightarrow> t \<noteq> [])"

text \<open>Decimal digits of a number, for the status in an error message.\<close>

function show_nat :: "nat \<Rightarrow> jsstring" where
  "show_nat n = (if n < 10 then [48 + n] else show_nat (n div 10) @ [48 + n mod 10])"
  by pat_completeness auto
termination
  by (relation "measure id") auto

text \<open>
  The provider's base URL: the value the source falls back to when the environment
  does not set \<open>NEXT_PUBLIC_LEONARDO_API_BASE_URL\<close>.
\<close>

definition LEONARDO_API_BASE_URL :: jsstring where
  "LEONARDO_API_BASE_URL = ascii ''https://cloud.leonardo.ai/api/rest/v1''"

text \<open>
  A loop is modelled by its body, which says how one iteration ends, and a recursive
  function that runs the body. An iteration either leaves the function with a result
  or goes on to the next iteration with the loop's variables.
\<close>

datatype ('r, 's) iteration = Return 'r | Continue 's

section \<open>fetchWithRetry\<close>

text \<open>
  Messages of the errors thrown by \<open>fetchWithRetry\<close>. The first is
  \<open>U+8BA4 U+8BC1 U+5931 U+8D25\<close> ("authentication failed") followed by a colon, a
  space and the status.
\<close>

definition auth_failed_message :: "nat \<Rightarrow> jsstring" where
  "auth_failed_message st = [0x8BA4, 0x8BC1, 0x5931, 0x8D25, 0x3A, 0x20] @ show_nat st"

definition http_error_message :: "nat \<Rightarrow> jsstring" where
  "http_error_message st = ascii ''HTTP error! status: '' @ show_nat st"

definition max_retries_message :: jsstring where
  "max_retries_message = ascii ''Maximum retries reached''"

text \<open>
  The \<open>try\<close> block of one iteration (lines 87 to 114): \<open>Return (Inr r)\<close> returns the
  response, \<open>Return (Inl e)\<close> throws \<open>e\<close> inside the \<open>try\<close>, \<open>Continue ()\<close> is the
  \<open>continue\<close> after a 429.
\<close>

definition fetchWithRetry_try ::
  "request \<Rightarrow> int \<Rightarrow> rat \<Rightarrow> int \<Rightarrow> world \<Rightarrow> (js_error + response, unit) iteration \<times> world" where
  "fetchWithRetry_try req retries delay i w =
     (let w = logger Debug (AttemptRequest (i + 1) retries) w
      in case fetch req w of
           (Rejects e, w) \<Rightarrow> (Return (Inl e), w)
         | (Resolves r, w) \<Rightarrow>
             if ok r then (Return (Inr r), w)
             else
               (case body_text r of
                  Inl e \<Rightarrow> (Return (Inl e), w)
                | Inr errorText \<Rightarrow>
                    let w = logger Err (RequestFailed (status r) (i + 1)) w
                    in if status r = 401 \<or> status r = 403
                       then (Return (Inl (Error (auth_failed_message (status r)))), w)
                       else if status r = 429 then (Continue (), sleep (jmul delay 2) w)
                       else (Return (Inl (Error (http_error_message (status r)))), w)))"

text \<open>
  The whole iteration: what the \<open>try\<close> block throws is caught by the \<open>catch\<close> of the same
  iteration (lines 115 to 119), which throws it on only in the last iteration and
  otherwise waits and lets the loop go on.
\<close>

definition fetchWithRetry_body ::
  "request \<Rightarrow> int \<Rightarrow> rat \<Rightarrow> int \<Rightarrow> world \<Rightarrow> (js_error + response, unit) iteration \<times> world" where
  "fetchWithRetry_body req retries delay i w =
     (case fetchWithRetry_try req retries delay i w of
        (Return (Inr r), w) \<Rightarrow> (Return (Inr r), w)
      | (Continue u, w) \<Rightarrow> (Continue u, w)
      | (Return (Inl e), w) \<Rightarrow>
          let w = logger Err RequestErrored w
          in if i = retries - 1 then (Return (Inl e), w)
             else (Continue (), sleep delay w))"

function fetchWithRetry_from ::
  "request \<Rightarrow> int \<Rightarrow> rat \<Rightarrow> int \<Rightarrow> world \<Rightarrow> (js_error + response) \<times> world" where
  "fetchWithRetry_from req retries delay i w =
     (if i < retries then
        (case fetchWithRetry_body req retries delay i w of
           (Return res, w') \<Rightarrow> (res, w')
         | (Continue u, w') \<Rightarrow> fetchWithRetry_from req retries delay (i + 1) w')
      else (Inl (Error max_retries_message), w))"
  by pat_completeness auto
termination
  by (relation "measure (\<lambda>(req, retries, delay, i, w). nat (retries - i))") auto

declare fetchWithRetry_from.simps [simp del]

definition fetchWithRetry ::
  "request \<Rightarrow> int \<Rightarrow> rat \<Rightarrow> world \<Rightarrow> (js_error + response) \<times> world" where
  "fetchWithRetry req retries delay w = fetchWithRetry_from req retries delay 0 w"

text \<open>The call with the default arguments \<open>retries = 3\<close> and \<open>delay = 1000\<close>.\<close>

definition fetchWithRetry_default :: "request \<Rightarrow> world \<Rightarrow> (js_error + response) \<times> world" where
  "fetchWithRetry_default req w = fetchWithRetry req 3 1000 w"

section \<open>Waiting for a generation\<close>

definition generation_request :: "jsstring \<Rightarrow> request" where
  "generation_request generationId =
     \<lparr>url = LEONARDO_API_BASE_URL @ ascii ''/generations/'' @ generationId,
      http_method = ascii ''GET'', body = None\<rparr>"

text \<open>\<open>generated_images?.[0]\<close>: the first image, when the member is there and not empty.\<close>

definition first_image :: "generation \<Rightarrow> generated_image option" where
  "first_image g =
     (case generated_images g of
        None \<Rightarrow> None
      | Some [] \<Rightarrow> None
      | Some (img # imgs) \<Rightarrow> Some img)"

record poll_options =
  maxPolls :: int
  initialDelay :: rat
  maxDelay :: rat

definition default_poll_options :: poll_options where
  "default_poll_options = \<lparr>maxPolls = 40, initialDelay = 3000, maxDelay = 10000\<rparr>"

text \<open>
  \<open>waitForGenerationCompletion\<close> returns \<open>string | null\<close>; \<open>None\<close> is \<open>null\<close>. The body of
  its \<open>while\<close> loop (lines 135 to 183) either returns, or goes on with the new
  \<open>currentDelay\<close>; \<open>pollCount\<close> goes up by one on both ways to the next iteration.
  The first function is the \<open>try\<close> block after the status has been fetched and parsed.
\<close>

definition waitForGenerationCompletion_status ::
  "poll_options \<Rightarrow> rat \<Rightarrow> json_data \<Rightarrow> world \<Rightarrow> (jsstring option, rat) iteration \<times> world" where
  "waitForGenerationCompletion_status options currentDelay data w =
     (case generations_by_pk data of
        None \<Rightarrow> (Continue currentDelay, sleep currentDelay w)
      | Some g \<Rightarrow>
          let w = logger Debug GenerationStatus w
          in (case gen_status g of
                COMPLETE \<Rightarrow>
                  (let imageId = (case first_image g of None \<Rightarrow> None | Some img \<Rightarrow> image_id img)
                   in if truthy imageId then (Return imageId, logger Info GenerationComplete w)
                      else (Return None, w))
              | FAILED \<Rightarrow> (Return None, logger Err GenerationFailed w)
              | PENDING \<Rightarrow>
                  (let currentDelay = min (jmul currentDelay (3 / 2)) (maxDelay options)
                   in (Continue currentDelay, sleep currentDelay w))
              | OtherStatus s \<Rightarrow>
                  (Continue currentDelay, sleep currentDelay (logger Warn UnknownStatus w))))"

definition waitForGenerationCompletion_body ::
  "jsstring \<Rightarrow> poll_options \<Rightarrow> rat \<Rightarrow> world \<Rightarrow> (jsstring option, rat) iteration \<times> world" where
  "waitForGenerationCompletion_body generationId options currentDelay w =
     (let catch = (\<lambda>w. (Continue (min (jmul currentDelay 2) (maxDelay options)),
                         logger Err PollingErrored w))
      in case fetchWithRetry_default (generation_request generationId) w of
           (Inl e, w) \<Rightarrow> catch w
         | (Inr r, w) \<Rightarrow>
             (case json r of
                Inl e \<Rightarrow> catch w
              | Inr data \<Rightarrow> waitForGenerationCompletion_status options currentDelay data w))"

function waitForGenerationCompletion_from ::
  "jsstring \<Rightarrow> poll_options \<Rightarrow> int \<Rightarrow> rat \<Rightarrow> world \<Rightarrow> jsstring option \<times> world" where
  "waitForGenerationCompletion_from generationId options pollCount currentDelay w =
     (if pollCount < maxPolls options then
        (case waitForGenerationCompletion_body generationId options currentDelay w of
           (Return res, w') \<Rightarrow> (res, w')
         | (Continue d, w') \<Rightarrow>
             waitForGenerationCompletion_from generationId options (pollCount + 1) d w')
      else (None, logger Err WaitTimedOut w))"
  by pat_completeness auto
termination
  by (relation "measure (\<lambda>(g, options, pollCount, d, w). nat (maxPolls options - pollCount))") auto

declare waitForGenerationCompletion_from.simps [simp del]

definition waitForGenerationCompletion ::
  "jsstring \<Rightarrow> poll_options \<Rightarrow> world \<Rightarrow> jsstring option \<times> world" where
  "waitForGenerationCompletion generationId options w =
     waitForGenerationCompletion_from generationId options 0 (initialDelay options) w"

text \<open>
  \<open>waitForGenerationResultUrl\<close> returns a \<open>LeonardoResponse\<close>. Its error texts are
  \<open>U+751F U+6210 U+5931 U+8D25\<close> ("generation failed"),
  \<open>U+7B49 U+5F85 U+751F U+6210 U+8D85 U+65F6\<close> ("waiting for the generation timed out")
  and "generation complete but no image URL found", which ends in the letters URL.
\<close>

record LeonardoResponse =
  success :: bool
  imageUrl :: "jsstring option"
  error :: "jsstring option"

definition generation_failed_message :: jsstring where
  "generation_failed_message = [0x751F, 0x6210, 0x5931, 0x8D25]"

definition wait_timeout_message :: jsstring where
  "wait_timeout_message = [0x7B49, 0x5F85, 0x751F, 0x6210, 0x8D85, 0x65F6]"

definition no_image_url_message :: jsstring where
  "no_image_url_message =
     [0x751F, 0x6210, 0x5B8C, 0x6210, 0x4F46, 0x672A, 0x627E, 0x5230, 0x56FE, 0x50CF,
      0x55, 0x52, 0x4C]"

definition failure :: "jsstring \<Rightarrow> LeonardoResponse" where
  "failure msg = \<lparr>success = False, imageUrl = None, error = Some msg\<rparr>"

definition POLL_INTERVAL :: rat where
  "POLL_INTERVAL = 3000"

definition MAX_POLLS :: int where
  "MAX_POLLS = 40"

text \<open>
  The body of its loop (lines 378 to 428), after \<open>pollCount++\<close>. Nothing inside the loop
  catches: a rejected \<open>fetch\<close> or a body that is not JSON leaves the loop for the
  \<open>catch\<close> around the whole function (lines 437 to 443), which returns the message of
  the error.
\<close>

definition waitForGenerationResultUrl_body ::
  "jsstring \<Rightarrow> world \<Rightarrow> (LeonardoResponse, unit) iteration \<times> world" where
  "waitForGenerationResultUrl_body generationId w =
     (let catch = (\<lambda>e w. (Return (failure (message e)), logger Err WaitErrored w))
      in case fetch (generation_request generationId) w of
           (Rejects e, w) \<Rightarrow> catch e w
         | (Resolves r, w) \<Rightarrow>
             if \<not> ok r
             then (Continue (), sleep POLL_INTERVAL (logger Err (StatusFetchFailed (status r)) w))
             else
               (case json r of
                  Inl e \<Rightarrow> catch e w
                | Inr data \<Rightarrow>
                    (case generations_by_pk data of
                       None \<Rightarrow> (Continue (), sleep POLL_INTERVAL w)
                     | Some g \<Rightarrow>
                         let w = logger Debug GenerationStatus w
                         in if gen_status g = COMPLETE then
                              (let generatedImageUrl =
                                     (case first_image g of None \<Rightarrow> None | Some img \<Rightarrow> image_url img)
                               in if truthy generatedImageUrl
                                  then (Return \<lparr>success = True, imageUrl = generatedImageUrl,
                                                error = None\<rparr>,
                                        logger Info GenerationCompleteWithUrl w)
                                  else (Return (failure no_image_url_message),
                                        logger Err CompleteWithoutUrl w))
                            else if gen_status g = FAILED
                            then (Return (failure generation_failed_message),
                                  logger Err GenerationFailed w)
                            else (Continue (), sleep POLL_INTERVAL w))))"

function waitForGenerationResultUrl_from ::
  "jsstring \<Rightarrow> int \<Rightarrow> world \<Rightarrow> LeonardoResponse \<times> world" where
  "waitForGenerationResultUrl_from generationId pollCount w =
     (if pollCount < MAX_POLLS then
        (case waitForGenerationResultUrl_body generationId w of
           (Return res, w') \<Rightarrow> (res, w')
         | (Continue u, w') \<Rightarrow> waitForGenerationResultUrl_from generationId (pollCount + 1) w')
      else (failure wait_timeout_message, logger Err WaitTimedOut w))"
  by pat_completeness auto
termination
  by (relation "measure (\<lambda>(g, pollCount, w). nat (MAX_POLLS - pollCount))") auto

declare waitForGenerationResultUrl_from.simps [simp del]

definition waitForGenerationResultUrl :: "jsstring \<Rightarrow> world \<Rightarrow> LeonardoResponse \<times> world" where
  "waitForGenerationResultUrl generationId w = waitForGenerationResultUrl_from generationId 0 w"

text \<open>
  A scripted remote side: the outcomes of the first calls of \<open>fetch\<close> are listed, every
  later call has the outcome \<open>rest\<close>.
\<close>

definition script :: "fetch_outcome list \<Rightarrow> fetch_outcome \<Rightarrow> nat \<Rightarrow> fetch_outcome" where
  "script outcomes rest n = (if n < length outcomes then outcomes ! n else rest)"

definition fresh_world :: "(nat \<Rightarrow> fetch_outcome) \<Rightarrow> world" where
  "fresh_world net = \<lparr>network = net, requests = [], sleeps = [], uploads = [], log = []\<rparr>"

text \<open>An answer of the status endpoint with HTTP status 200 and the given job.\<close>

definition status_response :: "job_status \<Rightarrow> generated_image list \<Rightarrow> fetch_outcome" where
  "status_response st imgs =
     Resolves \<lparr>ok = True, status = 200, body_text = Inr [],
       json = Inr \<lparr>generations_by_pk = Some \<lparr>gen_status = st, generated_images = Some imgs\<rparr>,
                   uploadInitImage = None\<rparr>\<rparr>"

text \<open>An answer with an error status and no JSON body the code would read.\<close>

definition error_response :: "nat \<Rightarrow> fetch_outcome" where
  "error_response st =
     Resolves \<lparr>ok = False, status = st, body_text = Inr [],
       json = Inr \<lparr>generations_by_pk = None, uploadInitImage = None\<rparr>\<rparr>"

section \<open>uploadImage\<close>

text \<open>
  What \<open>uploadImage\<close> asks of the browser is a parameter of the model: \<open>fetchDataUrl\<close>
  is \<open>fetch\<close> of a data URL followed by \<open>blob()\<close>, which yields a blob or throws;
  \<open>atob\<close> decodes base64 or throws; \<open>JSON_parse\<close> tells whether \<open>JSON.parse\<close> of the
  form fields throws; \<open>xhr\<close> is what becomes of the \<open>XMLHttpRequest\<close> that posts the form:
  \<open>open\<close> or \<open>send\<close> throws, or the request is sent and the promise around it is
  settled by \<open>onreadystatechange\<close> at \<open>readyState\<close> 4 with a status, or by \<open>onerror\<close>.
  None of them is a request to the provider, so none goes through \<open>network\<close>.
\<close>

record blob =
  blob_type :: jsstring
  blob_size :: nat

datatype xhr_outcome =
    XhrDone nat
  | XhrNetworkError
  | XhrThrows js_error

record browser =
  fetchDataUrl :: "jsstring \<Rightarrow> js_error + blob"
  atob :: "jsstring \<Rightarrow> js_error + jsstring"
  JSON_parse :: "jsstring \<Rightarrow> js_error option"
  xhr :: xhr_outcome

definition image_jpeg :: jsstring where
  "image_jpeg = ascii ''image/jpeg''"

definition image_png :: jsstring where
  "image_png = ascii ''image/png''"

text \<open>\<open>s.split(',')\<close>, and \<open>s.startsWith(p)\<close>.\<close>

fun split_commas :: "jsstring \<Rightarrow> jsstring list" where
  "split_commas [] = [[]]"
| "split_commas (c # cs) =
     (if c = 44 then [] # split_commas cs
      else (case split_commas cs of
              [] \<Rightarrow> [[c]]
            | p # ps \<Rightarrow> (c # p) # ps))"

definition startsWith :: "jsstring \<Rightarrow> jsstring \<Rightarrow> bool" where
  "startsWith s p = (take (length p) s = p)"

text \<open>
  \<open>s.match(/:(.*?);/)\<close>, the capture: behind the first colon that has a semicolon after
  it on the same line, the text up to that semicolon. The dot matches no line
  terminator.
\<close>

fun until_semicolon :: "jsstring \<Rightarrow> jsstring option" where
  "until_semicolon [] = None"
| "until_semicolon (c # cs) =
     (if c = 59 then Some []
      else if is_line_terminator c then None
      else map_option (Cons c) (until_semicolon cs))"

fun match_mime :: "jsstring \<Rightarrow> jsstring option" where
  "match_mime [] = None"
| "match_mime (c # cs) =
     (if c = 58 then
        (case until_semicolon cs of
           Some g \<Rightarrow> Some g
         | None \<Rightarrow> match_mime cs)
      else match_mime cs)"

text \<open>
  \<open>new Blob([bytes], {type})\<close>: the size is the number of bytes; the type is kept in
  lower case when it is printable ASCII and is empty otherwise.
\<close>

definition ascii_lower :: "nat \<Rightarrow> nat" where
  "ascii_lower c = (if 65 \<le> c \<and> c \<le> 90 then c + 32 else c)"

definition new_Blob :: "jsstring \<Rightarrow> jsstring \<Rightarrow> blob" where
  "new_Blob bytes type =
     \<lparr>blob_type = (if list_all (\<lambda>c. 32 \<le> c \<and> c \<le> 126) type then map ascii_lower type else []),
      blob_size = length bytes\<rparr>"

text \<open>
  Lines 1517 to 1588: the blob and the file extension made from the argument. The
  result is the value of \<open>imageBlob\<close>, which stays \<open>undefined\<close> (\<open>None\<close>) when every
  attempt has thrown, and the value of \<open>extension\<close>.
\<close>

definition fallback_blob :: "browser \<Rightarrow> jsstring \<Rightarrow> world \<Rightarrow> (blob option \<times> jsstring) \<times> world" where
  "fallback_blob env imageBase64 w =
     (case split_commas imageBase64 of
        [p0, p1] \<Rightarrow>
          (let mime = match_mime p0;
               mimeType = (if truthy mime then the mime else image_png);
               extension = (if truthy mime \<and> mimeType = image_jpeg then ascii ''jpg'' else ascii ''png'')
           in case atob env p1 of
                Inl e \<Rightarrow> ((None, extension), logger Err BlobFallbackFailed w)
              | Inr byteCharacters \<Rightarrow>
                  ((Some (new_Blob byteCharacters mimeType), extension),
                   logger Debug BlobFromFallback w))
      | parts \<Rightarrow> ((None, ascii ''png''), w))"

definition make_blob :: "browser \<Rightarrow> jsstring \<Rightarrow> world \<Rightarrow> (blob option \<times> jsstring) \<times> world" where
  "make_blob env imageBase64 w =
     (let w = logger Debug ProcessingImageData w
      in if startsWith imageBase64 (ascii ''data:'') then
           (case fetchDataUrl env imageBase64 of
              Inr imageBlob \<Rightarrow>
                ((Some imageBlob,
                  if blob_type imageBlob = image_jpeg then ascii ''jpg'' else ascii ''png''),
                 logger Debug BlobFromDataUrl w)
            | Inl blobError \<Rightarrow> fallback_blob env imageBase64 (logger Err BlobFromDataUrlFailed w))
         else
           (case atob env imageBase64 of
              Inr byteCharacters \<Rightarrow>
                ((Some (new_Blob byteCharacters image_png), ascii ''png''),
                 logger Debug BlobFromBase64 w)
            | Inl pureBase64Error \<Rightarrow> ((None, ascii ''png''), logger Err BlobFromBase64Failed w)))"

definition init_image_request :: "jsstring \<Rightarrow> request" where
  "init_image_request extension =
     \<lparr>url = LEONARDO_API_BASE_URL @ ascii ''/init-image'',
      http_method = ascii ''POST'',
      body = Some (ascii ''{\"extension\":\"'' @ extension @ ascii ''\"}'')\<rparr>"

text \<open>
  The upload target is the result of the first step: \<open>uploadId\<close>, \<open>uploadUrl\<close> and
  \<open>fieldsString\<close>. \<open>reserve_upload\<close> is the function up to line 1629; it ends with the
  target, or with the \<open>null\<close> that \<open>uploadImage\<close> returns there (\<open>None\<close>): for an empty
  argument, when no blob could be made or the blob is empty, when the request for the
  target throws (the \<open>catch\<close> of lines 1685 to 1688), and when the answer is incomplete.
\<close>

record upload_target =
  uploadId :: jsstring
  uploadUrl :: jsstring
  fieldsString :: jsstring

definition reserve_upload :: "browser \<Rightarrow> jsstring \<Rightarrow> world \<Rightarrow> upload_target option \<times> world" where
  "reserve_upload env imageBase64 w =
     (if imageBase64 = [] then (None, logger Err ImageDataEmpty w)
      else
        case make_blob env imageBase64 w of
          ((imageBlob, extension), w) \<Rightarrow>
            if (case imageBlob of None \<Rightarrow> True | Some b \<Rightarrow> blob_size b = 0)
            then (None, logger Err NoValidBlob w)
            else
              let w = logger Debug PreparingUpload w
              in case fetchWithRetry_default (init_image_request extension) w of
                   (Inl e, w) \<Rightarrow> (None, logger Err UploadImageErrored w)
                 | (Inr initResponse, w) \<Rightarrow>
                     if \<not> ok initResponse
                     then (None, logger Err (PresignedUrlFailed (status initResponse)) w)
                     else
                       (case json initResponse of
                          Inl e \<Rightarrow> (None, logger Err UploadImageErrored w)
                        | Inr initData \<Rightarrow>
                            let i = uploadInitImage initData;
                                uid = (case i of None \<Rightarrow> None | Some u \<Rightarrow> init_id u);
                                uurl = (case i of None \<Rightarrow> None | Some u \<Rightarrow> init_url u);
                                fields = (case i of None \<Rightarrow> None | Some u \<Rightarrow> init_fields u)
                            in if \<not> truthy uid \<or> \<not> truthy uurl \<or> \<not> truthy fields
                               then (None, logger Err UploadInfoIncomplete w)
                               else (Some \<lparr>uploadId = the uid, uploadUrl = the uurl,
                                           fieldsString = the fields\<rparr>, w)))"

text \<open>
  Lines 1631 to 1684: the transfer to the pre-signed URL. The promise around the
  \<open>XMLHttpRequest\<close> is resolved by both handlers, whatever the status. An exception of
  \<open>JSON.parse\<close>, \<open>open\<close> or \<open>send\<close> is caught by the \<open>catch\<close> of lines 1680 to 1684.
\<close>

definition transfer_to_target :: "browser \<Rightarrow> upload_target \<Rightarrow> world \<Rightarrow> jsstring option \<times> world" where
  "transfer_to_target env target w =
     (case JSON_parse env (fieldsString target) of
        Some e \<Rightarrow> (Some (uploadId target), logger Err S3UploadErrored w)
      | None \<Rightarrow>
          let w = logger Debug StartingS3Upload w
          in case xhr env of
               XhrThrows e \<Rightarrow> (Some (uploadId target), logger Err S3UploadErrored w)
             | XhrDone st \<Rightarrow>
                 let w = w\<lparr>uploads := uploads w @ [uploadUrl target]\<rparr>;
                     w = (if 200 \<le> st \<and> st < 300 then logger Info (S3UploadSucceeded st) w
                          else logger Warn (S3UploadStatusNot2xx st) w)
                 in (Some (uploadId target), logger Info S3UploadFlowDone w)
             | XhrNetworkError \<Rightarrow>
                 let w = w\<lparr>uploads := uploads w @ [uploadUrl target]\<rparr>;
                     w = logger Err S3UploadXhrError w
                 in (Some (uploadId target), logger Info S3UploadFlowDone w))"

definition uploadImage :: "browser \<Rightarrow> jsstring \<Rightarrow> world \<Rightarrow> jsstring option \<times> world" where
  "uploadImage env imageBase64 w =
     (case reserve_upload env imageBase64 w of
        (None, w) \<Rightarrow> (None, w)
      | (Some target, w) \<Rightarrow> transfer_to_target env target w)"

section \<open>Style elements\<close>

text \<open>
  \<open>getAvailableElements\<close> is a fixed table with one entry. Of an element the model keeps
  the members that \<open>safelyAddElements\<close> reads and the weights; \<open>compatible_models\<close> is
  \<open>compatible?.models\<close>. The model identifier is the value the source falls back to when
  the environment does not set \<open>NEXT_PUBLIC_LEONARDO_MODEL_ANIME_XL\<close>.
\<close>

record LeonardoElement =
  akUUID :: jsstring
  name :: jsstring
  weight :: rat
  minWeight :: "rat option"
  maxWeight :: "rat option"
  compatible_models :: "jsstring list option"

definition ANIME_XL :: jsstring where
  "ANIME_XL = ascii ''e71a1c2f-4f80-4800-934f-2c68979d8cc8''"

definition cuteEmotes :: LeonardoElement where
  "cuteEmotes =
     \<lparr>akUUID = ascii ''01b6184e-3905-4dc7-9ec6-4f09982536d5'',
      name = ascii ''Cute Emotes'',
      weight = 1 / 2,
      minWeight = Some (fl (1 / 10)),
      maxWeight = Some 2,
      compatible_models = Some [ANIME_XL]\<rparr>"

definition getAvailableElements :: "LeonardoElement list" where
  "getAvailableElements = [cuteEmotes]"

text \<open>
  Lines 1773 to 1787 of \<open>safelyAddElements\<close>, the weight pushed for one element.
  \<open>lowerWeight\<close> and \<open>upperWeight\<close> are the source's \<open>minWeight\<close> and \<open>maxWeight\<close>;
  \<open>weightOfSteps\<close> is what lines 1781 to 1787 make of the number of steps. A step size
  of zero makes the division yield no finite number and the weight \<open>NaN\<close>, which is
  \<open>None\<close> here.
\<close>

definition lowerWeight :: "bool \<Rightarrow> rat" where
  "lowerWeight isLeonardoProcess = (if isLeonardoProcess then 3 / 4 else 1 / 2)"

definition upperWeight :: "LeonardoElement \<Rightarrow> rat" where
  "upperWeight element =
     (case maxWeight element of
        None \<Rightarrow> 3 / 2
      | Some m \<Rightarrow> if m = 0 then 3 / 2 else m)"

definition stepSize :: "bool \<Rightarrow> LeonardoElement \<Rightarrow> rat" where
  "stepSize isLeonardoProcess element =
     jdiv (jsub (upperWeight element) (lowerWeight isLeonardoProcess)) 50"

definition weightOfSteps :: "bool \<Rightarrow> LeonardoElement \<Rightarrow> rat \<Rightarrow> rat" where
  "weightOfSteps isLeonardoProcess element steps =
     (let normalizedWeight =
            toFixed2 (jadd (lowerWeight isLeonardoProcess)
                           (jmul steps (stepSize isLeonardoProcess element)))
      in max (lowerWeight isLeonardoProcess) (min (upperWeight element) normalizedWeight))"

definition stepsOfWeight :: "bool \<Rightarrow> LeonardoElement \<Rightarrow> rat \<Rightarrow> rat" where
  "stepsOfWeight isLeonardoProcess element w =
     Math_round (jdiv (jsub w (lowerWeight isLeonardoProcess)) (stepSize isLeonardoProcess element))"

definition safeWeight :: "bool \<Rightarrow> LeonardoElement \<Rightarrow> rat \<Rightarrow> rat option" where
  "safeWeight isLeonardoProcess element w =
     (if stepSize isLeonardoProcess element = 0 then None
      else Some (weightOfSteps isLeonardoProcess element
                   (stepsOfWeight isLeonardoProcess element w)))"

text \<open>
  The loop of \<open>safelyAddElements\<close> (lines 1763 to 1802) builds \<open>compatibleElements\<close>;
  the function then stores the list in \<open>payload.elements\<close> when it is not empty. The
  payload is represented by that member.
\<close>

definition isCompatible :: "LeonardoElement \<Rightarrow> jsstring \<Rightarrow> bool" where
  "isCompatible element modelId =
     (case compatible_models element of
        None \<Rightarrow> True
      | Some ms \<Rightarrow> ms = [] \<or> modelId \<in> set ms)"

fun compatibleElements ::
  "(jsstring \<times> rat) list \<Rightarrow> jsstring \<Rightarrow> bool \<Rightarrow> (log_level \<times> log_event) list
     \<Rightarrow> (jsstring \<times> rat option) list \<times> (log_level \<times> log_event) list" where
  "compatibleElements [] modelId isLeonardoProcess lg = ([], lg)"
| "compatibleElements ((elementId, w) # rest) modelId isLeonardoProcess lg =
     (case find (\<lambda>e. akUUID e = elementId) getAvailableElements of
        None \<Rightarrow> compatibleElements rest modelId isLeonardoProcess lg
      | Some element \<Rightarrow>
          if isCompatible element modelId then
            (case compatibleElements rest modelId isLeonardoProcess
                    (lg @ [(Info, ElementAdded (name element))]) of
               (es, lg') \<Rightarrow> ((akUUID element, safeWeight isLeonardoProcess element w) # es, lg'))
          else compatibleElements rest modelId isLeonardoProcess
                 (lg @ [(Warn, ElementIncompatible (name element))]))"

definition safelyAddElements ::
  "(jsstring \<times> rat option) list option \<Rightarrow> (jsstring \<times> rat) list \<Rightarrow> jsstring \<Rightarrow> bool
     \<Rightarrow> (log_level \<times> log_event) list
     \<Rightarrow> (jsstring \<times> rat option) list option \<times> (log_level \<times> log_event) list" where
  "safelyAddElements payload_elements elements modelId isLeonardoProcess lg =
     (if elements = [] then (payload_elements, lg)
      else
        case compatibleElements elements modelId isLeonardoProcess lg of
          (es, lg') \<Rightarrow> (if es \<noteq> [] then Some es else payload_elements, lg'))"

text \<open>The weights the normalisation can produce: one for each number of steps from 0 to 50.\<close>

definition allowedWeights :: "bool \<Rightarrow> LeonardoElement \<Rightarrow> rat list" where
  "allowedWeights isLeonardoProcess element =
     map (\<lambda>k. weightOfSteps isLeonardoProcess element (of_nat k)) [0..<51]"

text \<open>
  \<open>weight_in_range\<close>: the weight asked for an element of the table lies between the
  minimum of the call site and the maximum the element declares.
\<close>

definition weight_in_range :: "bool \<Rightarrow> jsstring \<times> rat \<Rightarrow> bool" where
  "weight_in_range isLeonardoProcess selected =
     (case find (\<lambda>e. akUUID e = fst selected) getAvailableElements of
        None \<Rightarrow> True
      | Some element \<Rightarrow>
          lowerWeight isLeonardoProcess \<le> snd selected \<and> snd selected \<le> upperWeight element)"

section \<open>Worlds used in the properties\<close>

text \<open>
  The world after \<open>fetchWithRetry\<close>, called with its defaults, has had all three of its
  attempts rejected.
\<close>

definition after_rejections :: "request \<Rightarrow> world \<Rightarrow> world" where
  "after_rejections req w =
     w\<lparr>requests := requests w @ [req, req, req],
       sleeps := sleeps w @ [1000, 1000],
       log := log w @ [(Debug, AttemptRequest 1 3), (Err, RequestErrored),
                       (Debug, AttemptRequest 2 3), (Err, RequestErrored),
                       (Debug, AttemptRequest 3 3), (Err, RequestErrored)]\<rparr>"

text \<open>
  \<open>plays w outcomes rest\<close>: from now on the remote side of \<open>w\<close> answers with
  \<open>outcomes\<close>, one for each call of \<open>fetch\<close>, and with \<open>rest\<close> after them.
\<close>

definition plays :: "world \<Rightarrow> fetch_outcome list \<Rightarrow> fetch_outcome \<Rightarrow> bool" where
  "plays w outcomes rest = (\<forall>j. network w (fetch_count w + j) = script outcomes rest j)"

text \<open>
  One iteration of a waiting loop that does not end the wait is a tick: the remote side
  reports a status that is neither COMPLETE nor FAILED, or the status could not be
  fetched. For \<open>waitForGenerationCompletion\<close> a failed fetch is here three rejected
  calls, one for each attempt of \<open>fetchWithRetry\<close>; for \<open>waitForGenerationResultUrl\<close>
  it is one answer with an error status.
\<close>

datatype tick = StatusTick job_status | ErrorTick

definition keeps_waiting :: "tick \<Rightarrow> bool" where
  "keeps_waiting t =
     (case t of
        StatusTick st \<Rightarrow> st \<noteq> COMPLETE \<and> st \<noteq> FAILED
      | ErrorTick \<Rightarrow> True)"

definition completion_tick :: "js_error \<Rightarrow> tick \<Rightarrow> fetch_outcome list" where
  "completion_tick e t =
     (case t of
        StatusTick st \<Rightarrow> [status_response st []]
      | ErrorTick \<Rightarrow> [Rejects e, Rejects e, Rejects e])"

definition result_url_tick :: "nat \<Rightarrow> tick \<Rightarrow> fetch_outcome list" where
  "result_url_tick st t =
     (case t of
        StatusTick s \<Rightarrow> [status_response s []]
      | ErrorTick \<Rightarrow> [error_response st])"

text \<open>
  \<open>ends_wait x\<close>: the outcome \<open>x\<close> of a call of \<open>fetch\<close> ends the loop of
  \<open>waitForGenerationResultUrl\<close>; \<open>result_url_end x\<close> is what the function returns then.
\<close>

definition result_url_end :: "fetch_outcome \<Rightarrow> LeonardoResponse" where
  "result_url_end x =
     (case x of
        Rejects e \<Rightarrow> failure (message e)
      | Resolves r \<Rightarrow>
          (case json r of
             Inl e \<Rightarrow> failure (message e)
           | Inr data \<Rightarrow>
               (case generations_by_pk data of
                  None \<Rightarrow> failure []
                | Some j \<Rightarrow>
                    if gen_status j = FAILED then failure generation_failed_message
                    else (case first_image j of
                            None \<Rightarrow> failure no_image_url_message
                          | Some img \<Rightarrow>
                              if truthy (image_url img)
                              then \<lparr>success = True, imageUrl = image_url img, error = None\<rparr>
                              else failure no_image_url_message))))"

definition ends_wait :: "fetch_outcome \<Rightarrow> bool" where
  "ends_wait x =
     (case x of
        Rejects e \<Rightarrow> True
      | Resolves r \<Rightarrow>
          ok r \<and>
          (case json r of
             Inl e \<Rightarrow> True
           | Inr data \<Rightarrow>
               (case generations_by_pk data of
                  None \<Rightarrow> False
                | Some j \<Rightarrow> gen_status j = COMPLETE \<or> gen_status j = FAILED)))"














text \<open>
  For the upload: a log entry that reports a problem, and what it means that the
  transfer to the pre-signed URL has failed (the form fields do not parse, the request
  cannot be sent, the network fails, or the answer is not a 2xx).
\<close>

definition reports_problem :: "log_level \<times> log_event \<Rightarrow> bool" where
  "reports_problem entry = (fst entry = Warn \<or> fst entry = Err)"

definition transfer_failed :: "js_error option \<Rightarrow> xhr_outcome \<Rightarrow> bool" where
  "transfer_failed parsed outcome =
     (case parsed of
        Some e \<Rightarrow> True
      | None \<Rightarrow>
          (case outcome of
             XhrDone st \<Rightarrow> st < 200 \<or> 300 \<le> st
           | XhrNetworkError \<Rightarrow> True
           | XhrThrows e \<Rightarrow> True))"

text \<open>
  A browser in which every decoding succeeds, and a remote side whose first answer is
  a complete upload target.
\<close>

definition example_browser :: browser where
  "example_browser =
     \<lparr>fetchDataUrl = (\<lambda>u. Inr \<lparr>blob_type = image_png, blob_size = 3\<rparr>),
      atob = (\<lambda>s. Inr s),
      JSON_parse = (\<lambda>s. None),
      xhr = XhrDone 204\<rparr>"

definition example_target :: upload_target where
  "example_target =
     \<lparr>uploadId = ascii ''upload-1'', uploadUrl = ascii ''https://bucket.example/'',
      fieldsString = ascii ''{}''\<rparr>"

definition init_image_response :: fetch_outcome where
  "init_image_response =
     Resolves \<lparr>ok = True, status = 200, body_text = Inr [],
       json = Inr \<lparr>generations_by_pk = None,
                   uploadInitImage = Some \<lparr>init_id = Some (uploadId example_target),
                                           init_url = Some (uploadUrl example_target),
                                           init_fields = Some (fieldsString example_target)\<rparr>\<rparr>\<rparr>"




text \<open>
  What the amended claim C9 says of the result, written on the lines of the text and
  not on the regular expressions of the source: of the lines between the first and the
  last, those that are empty or hold white space only are left out, each with its line
  feed.
\<close>

definition solid_line :: "jsstring \<Rightarrow> bool" where
  "solid_line l = list_ex (\<lambda>c. \<not> is_space c) l"



section \<open>Properties of the rounding\<close>

lemma pow2_powi: "pow2 k = 2 powi k"
  by (simp add: pow2_def power_int_def field_simps)

lemma pow2_pos: "0 < pow2 k"
  by (simp add: pow2_def)

lemma pow2_add: "pow2 (a + b) = pow2 a * pow2 b"
  by (simp add: pow2_powi power_int_add)

lemma pow2_mono: "a \<le> b \<Longrightarrow> pow2 a \<le> pow2 b"
  by (simp add: pow2_powi power_int_increasing)

lemma pow2_nat: "pow2 (int n) = 2 ^ n"
  by (simp add: pow2_def)

lemma pow_le_of_int: "(2::int) ^ k \<le> n \<Longrightarrow> (2::rat) ^ k \<le> of_int n"
  by (metis of_int_le_iff of_int_numeral of_int_power)

lemma of_int_le_pow: "n \<le> (2::int) ^ k \<Longrightarrow> of_int n \<le> (2::rat) ^ k"
  by (metis of_int_le_iff of_int_numeral of_int_power)

lemma ilog2_bounds:
  assumes "0 < x"
  shows "pow2 (ilog2 x) \<le> x" and "x < pow2 (ilog2 x + 1)"
proof -
  have "pow2 (ilog2 x) \<le> x \<and> x < pow2 (ilog2 x + 1)"
  proof (cases "1 \<le> x")
    case True
    define n where "n = \<lfloor>x\<rfloor>"
    have n: "0 < n" using True by (simp add: n_def)
    from bitlen_bounds[OF n] have b: "2 ^ nat (bitlen n - 1) \<le> n" "n < 2 ^ nat (bitlen n)"
      by auto
    have bl: "1 \<le> bitlen n" using n by (smt (verit) bitlen_eq_zero_iff bitlen_nonneg)
    have "(2::rat) ^ nat (bitlen n - 1) \<le> of_int n" using b(1) by (rule pow_le_of_int)
    also have "\<dots> \<le> x" by (simp add: n_def)
    finally have lo: "pow2 (bitlen n - 1) \<le> x" using bl by (simp add: pow2_def)
    have "n + 1 \<le> 2 ^ nat (bitlen n)" using b(2) by simp
    then have "(of_int (n + 1) :: rat) \<le> 2 ^ nat (bitlen n)" by (rule of_int_le_pow)
    moreover have "x < of_int (n + 1)" unfolding n_def by linarith
    ultimately have hi: "x < pow2 (bitlen n)" using bl by (simp add: pow2_def)
    show ?thesis using lo hi True by (simp add: ilog2_def n_def)
  next
    case False
    define y where "y = 1 / x"
    have y1: "1 < y" using False assms by (simp add: y_def)
    define m where "m = \<lceil>y\<rceil> - 1"
    have m: "0 < m" using y1 by (simp add: m_def)
    have my: "of_int m < y" "y \<le> of_int m + 1" unfolding m_def by linarith+
    from bitlen_bounds[OF m] have b: "2 ^ nat (bitlen m - 1) \<le> m" "m < 2 ^ nat (bitlen m)"
      by auto
    have bl: "1 \<le> bitlen m" using m by (smt (verit) bitlen_eq_zero_iff bitlen_nonneg)
    have "m + 1 \<le> 2 ^ nat (bitlen m)" using b(2) by simp
    then have "(of_int (m + 1) :: rat) \<le> 2 ^ nat (bitlen m)" by (rule of_int_le_pow)
    then have "y \<le> 2 ^ nat (bitlen m)" using my(2) by simp
    then have lo: "1 / 2 ^ nat (bitlen m) \<le> x" using assms y1
      by (simp add: y_def field_simps)
    have "(2::rat) ^ nat (bitlen m - 1) \<le> of_int m" using b(1) by (rule pow_le_of_int)
    then have "2 ^ nat (bitlen m - 1) < y" using my(1) by linarith
    then have hi: "x < 1 / 2 ^ nat (bitlen m - 1)" using assms
      by (simp add: y_def field_simps)
    have e: "ilog2 x = - bitlen m" using False by (simp add: ilog2_def m_def y_def)
    have "nat (- (1 - bitlen m)) = nat (bitlen m - 1)" by simp
    then show ?thesis using lo hi bl unfolding e
      by (auto simp add: pow2_def)
  qed
  then show "pow2 (ilog2 x) \<le> x" and "x < pow2 (ilog2 x + 1)" by auto
qed

lemma ilog2_mono:
  assumes "0 < x" "x \<le> y"
  shows "ilog2 x \<le> ilog2 y"
proof (rule ccontr)
  assume "\<not> ilog2 x \<le> ilog2 y"
  then have "pow2 (ilog2 y + 1) \<le> pow2 (ilog2 x)" by (intro pow2_mono) simp
  moreover have "0 < y" using assms by simp
  ultimately show False
    using ilog2_bounds(1)[OF assms(1)] ilog2_bounds(2)[of y] assms(2) by linarith
qed

lemma round_even_of_int: "round_even (of_int n) = n"
  by (simp add: round_even_def)

lemma round_even_bounds: "q - 1 / 2 \<le> of_int (round_even q)" "of_int (round_even q) \<le> q + 1 / 2"
  unfolding round_even_def Let_def by (auto; linarith)+

lemma round_even_mono:
  assumes "a \<le> b"
  shows "round_even a \<le> round_even b"
proof (cases "\<lfloor>a\<rfloor> = \<lfloor>b\<rfloor>")
  case True
  then show ?thesis using assms unfolding round_even_def Let_def by auto
next
  case False
  then have "\<lfloor>a\<rfloor> + 1 \<le> \<lfloor>b\<rfloor>" using floor_mono[OF assms] by simp
  moreover have "round_even a \<le> \<lfloor>a\<rfloor> + 1" unfolding round_even_def Let_def by auto
  moreover have "\<lfloor>b\<rfloor> \<le> round_even b" unfolding round_even_def Let_def by auto
  ultimately show ?thesis by linarith
qed

lemma round_even_ge_int: "of_int n \<le> q \<Longrightarrow> n \<le> round_even q"
  using round_even_mono[of "of_int n" q] by (simp add: round_even_of_int)

lemma round_even_le_int: "q \<le> of_int n \<Longrightarrow> round_even q \<le> n"
  using round_even_mono[of q "of_int n"] by (simp add: round_even_of_int)

lemma fl_pos_bounds:
  assumes "0 < x"
  shows "pow2 (ilog2 x) \<le> fl x" and "fl x \<le> pow2 (ilog2 x + 1)"
proof -
  define e where "e = ilog2 x"
  define u where "u = pow2 (e - 52)"
  have u: "0 < u" by (simp add: u_def pow2_pos)
  have f: "fl x = of_int (round_even (x / u)) * u"
    using assms by (simp add: fl_def u_def e_def Let_def)
  have c52: "pow2 52 = 2 ^ 52" and c53: "pow2 53 = 2 ^ 53" by (simp_all add: pow2_def)
  have p52: "pow2 e = 2 ^ 52 * u"
    using pow2_add[of 52 "e - 52"] by (simp add: u_def c52)
  have p53: "pow2 (e + 1) = 2 ^ 53 * u"
    using pow2_add[of 53 "e - 52"] by (simp add: u_def c53 add.commute)
  have "2 ^ 52 * u \<le> x" using ilog2_bounds(1)[OF assms] p52 by (simp add: e_def)
  then have "of_int (2 ^ 52) \<le> x / u" using u by (simp add: field_simps)
  then have "2 ^ 52 \<le> round_even (x / u)" by (rule round_even_ge_int)
  then have "(of_int (2 ^ 52) :: rat) \<le> of_int (round_even (x / u))" by (simp only: of_int_le_iff)
  then have "2 ^ 52 * u \<le> of_int (round_even (x / u)) * u" using u by simp
  then show "pow2 (ilog2 x) \<le> fl x" using f p52 by (simp add: e_def)
  have "x < 2 ^ 53 * u" using ilog2_bounds(2)[OF assms] p53 by (simp add: e_def)
  then have "x / u \<le> of_int (2 ^ 53)" using u by (simp add: field_simps)
  then have "round_even (x / u) \<le> 2 ^ 53" by (rule round_even_le_int)
  then have "(of_int (round_even (x / u)) :: rat) \<le> of_int (2 ^ 53)" by (simp only: of_int_le_iff)
  then have "of_int (round_even (x / u)) * u \<le> 2 ^ 53 * u" using u by simp
  then show "fl x \<le> pow2 (ilog2 x + 1)" using f p53 by (simp add: e_def)
qed

lemma fl_pos: "0 < x \<Longrightarrow> 0 < fl x"
  using fl_pos_bounds(1)[of x] pow2_pos[of "ilog2 x"] by linarith

lemma fl_mono_pos:
  assumes "0 < x" "x \<le> y"
  shows "fl x \<le> fl y"
proof -
  have y: "0 < y" using assms by simp
  have le: "ilog2 x \<le> ilog2 y" using assms by (rule ilog2_mono)
  show ?thesis
  proof (cases "ilog2 x = ilog2 y")
    case True
    define u where "u = pow2 (ilog2 x - 52)"
    have u: "0 < u" by (simp add: u_def pow2_pos)
    have "x / u \<le> y / u" using assms(2) u by (simp add: divide_right_mono)
    then have "round_even (x / u) \<le> round_even (y / u)" by (rule round_even_mono)
    then have "(of_int (round_even (x / u)) :: rat) \<le> of_int (round_even (y / u))"
      by (simp only: of_int_le_iff)
    then have "of_int (round_even (x / u)) * u \<le> of_int (round_even (y / u)) * u"
      using u by simp
    then show ?thesis using assms(1) y True by (simp add: fl_def u_def Let_def)
  next
    case False
    then have "ilog2 x + 1 \<le> ilog2 y" using le by simp
    then have "pow2 (ilog2 x + 1) \<le> pow2 (ilog2 y)" by (rule pow2_mono)
    then show ?thesis
      using fl_pos_bounds(2)[OF assms(1)] fl_pos_bounds(1)[OF y] by linarith
  qed
qed

lemma fl_of_int:
  assumes "0 < n" "n < 2 ^ 53"
  shows "fl (of_int n) = of_int n"
proof -
  define x :: rat where "x = of_int n"
  have x: "0 < x" using assms(1) by (simp add: x_def)
  define e where "e = ilog2 x"
  have "pow2 e \<le> x" using ilog2_bounds(1)[OF x] by (simp add: e_def)
  moreover have "x < pow2 53" using assms(2) unfolding x_def pow2_def
    by simp
  ultimately have "pow2 e < pow2 53" by linarith
  then have e: "e \<le> 52" using pow2_mono[of 53 e] by (cases "e \<le> 52") auto
  define k where "k = nat (52 - e)"
  have ue: "pow2 (e - 52) * 2 ^ k = 1"
    using pow2_add[of "e - 52" "int k"] e by (simp add: k_def pow2_nat) (simp add: pow2_def)
  have up: "0 < pow2 (e - 52)" by (rule pow2_pos)
  have "x / pow2 (e - 52) = x * 2 ^ k" using ue up by (simp add: field_simps)
  also have "\<dots> = of_int (n * 2 ^ k)" by (simp add: x_def)
  finally have "round_even (x / pow2 (e - 52)) = n * 2 ^ k" by (simp only: round_even_of_int)
  then have "fl x = of_int (n * 2 ^ k) * pow2 (e - 52)"
    using x by (simp add: fl_def e_def Let_def)
  also have "\<dots> = x * (pow2 (e - 52) * 2 ^ k)" by (simp add: x_def)
  finally show ?thesis using ue by (simp add: x_def)
qed

lemma fl_nonneg_int:
  assumes "0 \<le> n" "n < 2 ^ 53"
  shows "fl (of_int n) = of_int n"
proof (cases "n = 0")
  case True then show ?thesis by (simp add: fl_def)
next
  case False then show ?thesis using assms fl_of_int[of n] by simp
qed

lemma fl_mono_nonneg:
  assumes "0 \<le> x" "x \<le> y"
  shows "fl x \<le> fl y"
proof (cases "x = 0")
  case True
  show ?thesis
  proof (cases "y = 0")
    case True with \<open>x = 0\<close> show ?thesis by simp
  next
    case False
    then have "0 < y" using assms True by simp
    then have "0 < fl y" by (rule fl_pos)
    then show ?thesis using True by (simp add: fl_def)
  qed
next
  case False
  then have "0 < x" using assms by simp
  then show ?thesis using assms(2) by (rule fl_mono_pos)
qed

lemma floor8_ge:
  assumes "0 < k" "8 * k < 2 ^ 53" "of_int (8 * k) \<le> x"
  shows "of_int (8 * k) \<le> floor8 x"
proof -
  have k53: "k < 2 ^ 53" using assms(1,2) by simp
  have "(0::rat) \<le> of_int k" using assms(1) by simp
  moreover have "of_int k \<le> x / 8" using assms(3) by simp
  ultimately have "fl (of_int k) \<le> fl (x / 8)" by (rule fl_mono_nonneg)
  then have "of_int k \<le> fl (x / 8)" using fl_of_int[OF assms(1) k53] by simp
  then have "k \<le> \<lfloor>fl (x / 8)\<rfloor>" by (simp add: le_floor_iff)
  then have "(of_int (8 * k) :: rat) \<le> of_int \<lfloor>fl (x / 8)\<rfloor> * 8" by simp
  moreover have "(0::rat) \<le> of_int (8 * k)" using assms(1) by simp
  ultimately have "fl (of_int (8 * k)) \<le> fl (of_int \<lfloor>fl (x / 8)\<rfloor> * 8)"
    by (intro fl_mono_nonneg)
  moreover have "fl (of_int (8 * k)) = of_int (8 * k)"
    using assms by (intro fl_of_int) auto
  ultimately show ?thesis by (simp add: floor8_def jmul_def jdiv_def Math_floor_def)
qed

lemma floor8_nonneg_floor:
  assumes "0 \<le> x"
  shows "0 \<le> \<lfloor>fl (x / 8)\<rfloor>"
proof -
  have "fl 0 \<le> fl (x / 8)" using assms by (intro fl_mono_nonneg) auto
  then show ?thesis by (simp add: fl_def)
qed

lemma floor8_le:
  assumes "0 \<le> x" "0 < k" "8 * k < 2 ^ 53" "x \<le> of_int (8 * k)"
  shows "floor8 x \<le> of_int (8 * k)"
proof -
  have k53: "k < 2 ^ 53" using assms(2,3) by simp
  have "fl (x / 8) \<le> fl (of_int k)" using assms(1,4) by (intro fl_mono_nonneg) auto
  then have "fl (x / 8) \<le> of_int k" using fl_of_int[OF assms(2) k53] by simp
  then have fk: "\<lfloor>fl (x / 8)\<rfloor> \<le> k" by (simp add: floor_le_iff)
  have f0: "0 \<le> \<lfloor>fl (x / 8)\<rfloor>" using assms(1) by (rule floor8_nonneg_floor)
  have "(of_int \<lfloor>fl (x / 8)\<rfloor> * 8 :: rat) \<le> of_int (8 * k)" using fk by simp
  moreover have "(0 :: rat) \<le> of_int \<lfloor>fl (x / 8)\<rfloor> * 8" using f0 by simp
  ultimately have "fl (of_int \<lfloor>fl (x / 8)\<rfloor> * 8) \<le> fl (of_int (8 * k))"
    by (intro fl_mono_nonneg)
  moreover have "fl (of_int (8 * k)) = of_int (8 * k)"
    using assms by (intro fl_of_int) auto
  ultimately show ?thesis by (simp add: floor8_def jmul_def jdiv_def Math_floor_def)
qed

lemma floor8_multiple:
  assumes "0 \<le> x" "floor8 x \<le> of_int b" "b < 2 ^ 50"
  shows "\<exists>n. 0 \<le> n \<and> floor8 x = of_int (8 * n)"
proof -
  define n where "n = \<lfloor>fl (x / 8)\<rfloor>"
  have n0: "0 \<le> n" unfolding n_def using assms(1) by (rule floor8_nonneg_floor)
  have f: "floor8 x = fl (of_int (8 * n))"
    by (simp add: floor8_def jmul_def jdiv_def Math_floor_def n_def mult.commute)
  have "n < 2 ^ 50"
  proof (rule ccontr)
    assume "\<not> n < 2 ^ 50"
    then have "(2::int) ^ 53 \<le> 8 * n" by simp
    then have "(of_int (2 ^ 52) :: rat) \<le> of_int (8 * n)"
      by simp
    moreover have "(0::rat) \<le> of_int (2 ^ 52)" by simp
    ultimately have "fl (of_int (2 ^ 52)) \<le> fl (of_int (8 * n))" by (intro fl_mono_nonneg)
    moreover have "fl (of_int (2 ^ 52)) = of_int (2 ^ 52)" by (intro fl_of_int) auto
    ultimately have "(of_int (2 ^ 52) :: rat) \<le> of_int b" using f assms(2) by simp
    then have "2 ^ 52 \<le> b" by (simp only: of_int_le_iff)
    then show False using assms(3) by simp
  qed
  then have "fl (of_int (8 * n)) = of_int (8 * n)" using n0 by (intro fl_nonneg_int) auto
  then show ?thesis using f n0 by auto
qed

section \<open>The output size stays within the provider's limits\<close>

lemma floor8_minDimension: "floor8 512 = 512"
  by code_simp

lemma floor8_maxDimension: "floor8 768 = 768"
  by code_simp

lemma grid_512: "grid 512" and grid_768: "grid 768"
  unfolding grid_def by (rule exI[of _ 64], simp) (rule exI[of _ 96], simp)

lemma floor8_grid:
  assumes "512 \<le> x" "floor8 x \<le> 768"
  shows "grid (floor8 x)"
proof -
  have x0: "0 \<le> x" using assms(1) by simp
  have "floor8 x \<le> of_int 768" using assms(2) by simp
  from floor8_multiple[OF x0 this] obtain n where n: "0 \<le> n" "floor8 x = of_int (8 * n)"
    by auto
  have "of_int (8 * 64) \<le> floor8 x" using assms(1) by (intro floor8_ge) auto
  then have "(of_int (8 * 64) :: rat) \<le> of_int (8 * n)" using n(2) by simp
  then have "64 \<le> n" by simp
  moreover have "(of_int (8 * n) :: rat) \<le> of_int 768" using assms(2) n(2) by simp
  then have "n \<le> 96" by simp
  ultimately show ?thesis using n(2) unfolding grid_def by blast
qed

lemma floor8_grid_upper:
  assumes "0 \<le> x" "x \<le> 768" "\<not> floor8 x < 512"
  shows "grid (floor8 x)"
proof -
  have le: "floor8 x \<le> of_int (8 * 96)" using assms(1,2) by (intro floor8_le) auto
  then have "floor8 x \<le> of_int 768" by simp
  from floor8_multiple[OF assms(1) this] obtain n where n: "0 \<le> n" "floor8 x = of_int (8 * n)"
    by auto
  have "(of_int (8 * 64) :: rat) \<le> of_int (8 * n)" using assms(3) n(2) by simp
  then have "64 \<le> n" by simp
  moreover have "(of_int (8 * n) :: rat) \<le> of_int (8 * 96)" using le n(2) by simp
  then have "n \<le> 96" by simp
  ultimately show ?thesis using n(2) unfolding grid_def by blast
qed

lemma fl_ge_512: "512 \<le> x \<Longrightarrow> 512 \<le> fl x"
  using fl_mono_nonneg[of 512 x] fl_of_int[of 512] by simp

lemma fl_le_768: "0 \<le> x \<Longrightarrow> x \<le> 768 \<Longrightarrow> fl x \<le> 768"
  using fl_mono_nonneg[of x 768] fl_of_int[of 768] by simp

lemma fl_nonneg: "0 \<le> x \<Longrightarrow> 0 \<le> fl x"
  using fl_mono_nonneg[of 0 x] by (simp add: fl_def)

lemma fitAspectRatio_grid:
  assumes "0 < r" "fitAspectRatio r = (w, h)"
  shows "grid w \<and> grid h"
proof (cases "1 \<le> r")
  case True
  have x: "512 \<le> jmul 512 r" unfolding jmul_def using True by (intro fl_ge_512) simp
  have y0: "0 \<le> jdiv 768 r" unfolding jdiv_def using assms(1) by (intro fl_nonneg) simp
  have y: "jdiv 768 r \<le> 768" unfolding jdiv_def using True
    by (intro fl_le_768) (simp_all add: field_simps)
  show ?thesis
    using assms(2) True floor8_grid[OF x] floor8_grid_upper[OF y0 y] grid_512 grid_768
    by (auto simp add: fitAspectRatio_def Let_def floor8_minDimension floor8_maxDimension
        minDimension_def maxDimension_def split: if_splits)
next
  case False
  have x: "512 \<le> jdiv 512 r" unfolding jdiv_def using False assms(1)
    by (intro fl_ge_512) (simp add: field_simps)
  have y0: "0 \<le> jmul 768 r" unfolding jmul_def using assms(1) by (intro fl_nonneg) simp
  have y: "jmul 768 r \<le> 768" unfolding jmul_def using False assms(1)
    by (intro fl_le_768) simp_all
  show ?thesis
    using assms(2) False floor8_grid[OF x] floor8_grid_upper[OF y0 y] grid_512 grid_768
    by (auto simp add: fitAspectRatio_def Let_def floor8_minDimension floor8_maxDimension
        minDimension_def maxDimension_def split: if_splits)
qed

lemma grid_product:
  assumes "grid w" "grid h"
  shows "jmul w h = w * h" and "w * h \<le> 589824"
proof -
  from assms obtain a b where a: "64 \<le> a" "a \<le> 96" "w = of_int (8 * a)"
    and b: "64 \<le> b" "b \<le> 96" "h = of_int (8 * b)" unfolding grid_def by blast
  have ab: "a * b \<le> 96 * 96" using a b by (intro mult_mono) auto
  have ab0: "0 < a * b" using a b by (intro mult_pos_pos) auto
  have wh: "w * h = of_int (64 * (a * b))" using a(3) b(3) by simp
  have "fl (of_int (64 * (a * b))) = of_int (64 * (a * b))"
    using ab ab0 by (intro fl_of_int) auto
  then show "jmul w h = w * h" using wh by (simp add: jmul_def)
  have "64 * (a * b) \<le> 589824" using ab by simp
  then have "(of_int (64 * (a * b)) :: rat) \<le> of_int 589824" by (simp only: of_int_le_iff)
  then show "w * h \<le> 589824" using wh by simp
qed

lemma limitPixelCount_grid:
  assumes "grid w" "grid h"
  shows "limitPixelCount Math_sqrt (w, h) = (w, h)"
  using grid_product[OF assms] by (simp add: limitPixelCount_def pixelLimit_def)

lemma grid_props:
  assumes "grid x"
  shows "multiple_of_8 x" "512 \<le> x" "x \<le> 768"
proof -
  from assms obtain n where n: "64 \<le> n" "n \<le> 96" "x = of_int (8 * n)"
    unfolding grid_def by blast
  show "multiple_of_8 x" using n(3) by (simp add: multiple_of_8_def)
  have "(of_int (8 * 64) :: rat) \<le> of_int (8 * n)" using n(1) by simp
  then show "512 \<le> x" using n(3) by simp
  have "(of_int (8 * n) :: rat) \<le> of_int (8 * 96)" using n(2) by simp
  then show "x \<le> 768" using n(3) by simp
qed

lemma normalizeDimensions_grid:
  assumes "0 < width" "0 < height"
  shows "grid (fst (normalizeDimensions Math_sqrt width height))"
    and "grid (snd (normalizeDimensions Math_sqrt width height))"
proof -
  have r: "0 < jdiv width height" unfolding jdiv_def using assms by (intro fl_pos) simp
  obtain w h where f: "fitAspectRatio (jdiv width height) = (w, h)" by fastforce
  from fitAspectRatio_grid[OF r f] have g: "grid w" "grid h" by auto
  have "normalizeDimensions Math_sqrt width height = (w, h)"
    using f limitPixelCount_grid[OF g] by (simp add: normalizeDimensions_def)
  then show "grid (fst (normalizeDimensions Math_sqrt width height))"
    and "grid (snd (normalizeDimensions Math_sqrt width height))" using g by simp_all
qed

lemma normalizeDimensions_within_limits:
  assumes "0 < width" "0 < height"
  shows "within_limits (normalizeDimensions Math_sqrt width height)"
proof -
  note g = normalizeDimensions_grid[OF assms, of Math_sqrt]
  show ?thesis
    unfolding within_limits_def
    using grid_props[OF g(1)] grid_props[OF g(2)] grid_product(2)[OF g]
    by (simp add: minDimension_def maxDimension_def pixelLimit_def)
qed

text \<open>
  Claim C2. For every width and height greater than zero, the size computed at both
  call sites has two sides that are multiples of 8, each at least \<open>minDimension\<close> (512)
  and at most \<open>maxDimension\<close> (768), and a product of at most \<open>pixelLimit\<close> (589824).
  The bounds hold without the exceptions the claim allows for: the branch that scales
  for the pixel count is never taken.
\<close>

theorem output_size_within_limits:
  assumes "0 < width" and "0 < height"
  shows "within_limits (imageToImageOutputSize Math_sqrt (Some (width, height)))
     \<and> within_limits (advancedOutputSize Math_sqrt (Some width) (Some height))"
  using assms normalizeDimensions_within_limits[OF assms, of Math_sqrt]
  by (simp add: imageToImageOutputSize_def advancedOutputSize_def)

theorem output_size_within_limits_witness:
  "(0::rat) < 1920 \<and> (0::rat) < 1080
   \<and> imageToImageOutputSize id (Some (1920, 1080)) = (768, 512)
   \<and> within_limits (imageToImageOutputSize id (Some (1920, 1080)))
   \<and> within_limits (advancedOutputSize id (Some 1920) (Some 1080))"
proof -
  have "imageToImageOutputSize id (Some (1920, 1080)) = (768, 512)"
    by code_simp
  then show ?thesis
    using output_size_within_limits[of 1920 1080 id] by simp
qed

text \<open>
  Claim C3 says that the size computed from a size the function has returned is that
  size again. The function returns 512 by 744 for an image of 11 by 16, and returns
  512 by 736 for 512 by 744: the quotient \<open>512 / 744\<close> is rounded up to the next
  binary64 value, \<open>512\<close> divided by it falls just below 744, and \<open>Math.floor\<close> of an
  eighth of that is 92 instead of 93.
\<close>

theorem output_size_not_fixed_point:
  "imageToImageOutputSize Math_sqrt (Some (11, 16)) = (512, 744)
   \<and> imageToImageOutputSize Math_sqrt (Some (512, 744)) = (512, 736)"
  by code_simp

section \<open>The retry wrapper\<close>

lemmas world_ops = fetch_def logger_def sleep_def fetch_count_def fresh_world_def script_def

lemmas retry_defs = fetchWithRetry_default_def fetchWithRetry_def fetchWithRetry_body_def
  fetchWithRetry_try_def

text \<open>
  Claim C1 says that a request answered with 401 (or 403) is attempted once. The throw
  of line 105 is inside the \<open>try\<close> of the loop body, so the \<open>catch\<close> of line 115 takes it
  like any other error: with the default of three attempts, a server that answers 401
  (or 403) every time is asked three times before the error leaves the function.
\<close>

theorem fetchWithRetry_retries_auth_failure:
  "fst (fetchWithRetry_default req (fresh_world (script [] (error_response 401))))
     = Inl (Error (auth_failed_message 401))
   \<and> fetch_count (snd (fetchWithRetry_default req (fresh_world (script [] (error_response 401))))) = 3
   \<and> fst (fetchWithRetry_default req (fresh_world (script [] (error_response 403))))
     = Inl (Error (auth_failed_message 403))
   \<and> fetch_count (snd (fetchWithRetry_default req (fresh_world (script [] (error_response 403))))) = 3"
  by (simp add: retry_defs fetchWithRetry_from.simps world_ops error_response_def Let_def)

text \<open>A first answer that is \<open>ok\<close> is returned after one call of \<open>fetch\<close>.\<close>

lemma fetchWithRetry_default_ok:
  assumes "network w (fetch_count w) = Resolves r" and "ok r"
  shows "fetchWithRetry_default req w
     = (Inr r, (logger Debug (AttemptRequest 1 3) w)\<lparr>requests := requests w @ [req]\<rparr>)"
  using assms
  by (simp add: retry_defs fetchWithRetry_from.simps[of _ 3 _ 0] world_ops Let_def)

text \<open>
  Three rejected calls in a row: the wrapper makes its three attempts, waits twice and
  throws the last error.
\<close>

lemma fetchWithRetry_default_rejected:
  assumes "network w (fetch_count w) = Rejects e"
    and "network w (fetch_count w + 1) = Rejects e"
    and "network w (fetch_count w + 2) = Rejects e"
  shows "fetchWithRetry_default req w = (Inl e, after_rejections req w)"
  using assms
  by (simp add: retry_defs fetchWithRetry_from.simps[of _ 3] world_ops Let_def
      after_rejections_def)

section \<open>Waiting for a generation\<close>

lemmas wait_defs = waitForGenerationCompletion_def waitForGenerationCompletion_body_def
  waitForGenerationCompletion_status_def waitForGenerationResultUrl_def
  waitForGenerationResultUrl_body_def generation_request_def first_image_def truthy_def
  status_response_def error_response_def failure_def MAX_POLLS_def POLL_INTERVAL_def

text \<open>
  Claim C4. \<open>waitForGenerationCompletion\<close> with \<open>maxPolls = 5\<close>, on a remote side that
  answers PENDING, PENDING and then COMPLETE with an image, returns the identifier of
  that image after exactly 3 calls of \<open>fetch\<close>. With \<open>maxPolls = 3\<close>, on a remote side
  that answers PENDING every time, it returns \<open>null\<close> after exactly 3 calls, and the last
  entry of the log is the error that waiting timed out. The delays are arbitrary.
  \<open>waitForGenerationResultUrl\<close>, whose budget is the constant 40, returns the URL of
  the image after exactly 3 calls on the first remote side.
\<close>

theorem wait_polls_exactly_three_times:
  "fst (waitForGenerationCompletion generationId
          \<lparr>maxPolls = 5, initialDelay = d, maxDelay = m\<rparr>
          (fresh_world (script [status_response PENDING [], status_response PENDING [],
             status_response COMPLETE [\<lparr>image_id = Some (c # cs), image_url = u\<rparr>]] rest)))
     = Some (c # cs)
   \<and> fetch_count (snd (waitForGenerationCompletion generationId
          \<lparr>maxPolls = 5, initialDelay = d, maxDelay = m\<rparr>
          (fresh_world (script [status_response PENDING [], status_response PENDING [],
             status_response COMPLETE [\<lparr>image_id = Some (c # cs), image_url = u\<rparr>]] rest))))
     = 3
   \<and> fst (waitForGenerationCompletion generationId
          \<lparr>maxPolls = 3, initialDelay = d, maxDelay = m\<rparr>
          (fresh_world (script [] (status_response PENDING imgs))))
     = None
   \<and> fetch_count (snd (waitForGenerationCompletion generationId
          \<lparr>maxPolls = 3, initialDelay = d, maxDelay = m\<rparr>
          (fresh_world (script [] (status_response PENDING imgs)))))
     = 3
   \<and> last (log (snd (waitForGenerationCompletion generationId
          \<lparr>maxPolls = 3, initialDelay = d, maxDelay = m\<rparr>
          (fresh_world (script [] (status_response PENDING imgs))))))
     = (Err, WaitTimedOut)
   \<and> fst (waitForGenerationResultUrl generationId
          (fresh_world (script [status_response PENDING [], status_response PENDING [],
             status_response COMPLETE [\<lparr>image_id = i, image_url = Some (c # cs)\<rparr>]] rest)))
     = \<lparr>success = True, imageUrl = Some (c # cs), error = None\<rparr>
   \<and> fetch_count (snd (waitForGenerationResultUrl generationId
          (fresh_world (script [status_response PENDING [], status_response PENDING [],
             status_response COMPLETE [\<lparr>image_id = i, image_url = Some (c # cs)\<rparr>]] rest))))
     = 3"
  by (simp add: wait_defs waitForGenerationCompletion_from.simps
      waitForGenerationResultUrl_from.simps retry_defs fetchWithRetry_from.simps world_ops Let_def)

subsection \<open>Scripts\<close>

lemma plays_fresh: "plays (fresh_world (script outcomes rest)) outcomes rest"
  by (simp add: plays_def fresh_world_def fetch_count_def)

lemma plays_head: "plays w (x # xs) rest \<Longrightarrow> network w (fetch_count w) = x"
  unfolding plays_def script_def
proof -
  assume a: "\<forall>j. network w (fetch_count w + j) = (if j < length (x # xs) then (x # xs) ! j else rest)"
  from a[rule_format, of 0] show ?thesis by simp
qed

lemma plays_tail:
  assumes "plays w (x # xs) rest" "network w' = network w" "fetch_count w' = fetch_count w + 1"
  shows "plays w' xs rest"
  unfolding plays_def
proof
  fix j
  from assms(1) have "network w (fetch_count w + Suc j) = script (x # xs) rest (Suc j)"
    unfolding plays_def by blast
  then show "network w' (fetch_count w' + j) = script xs rest j"
    using assms(2,3) by (simp add: script_def)
qed

lemma plays_drop:
  assumes "plays w (xs @ ys) rest" "network w' = network w"
    "fetch_count w' = fetch_count w + length xs"
  shows "plays w' ys rest"
  unfolding plays_def
proof
  fix j
  from assms(1) have "network w (fetch_count w + (length xs + j)) = script (xs @ ys) rest (length xs + j)"
    unfolding plays_def by blast
  then show "network w' (fetch_count w' + j) = script ys rest j"
    using assms(2,3) by (simp add: script_def add.assoc)
qed

subsection \<open>One iteration of \<open>waitForGenerationCompletion\<close>\<close>

lemma completion_exhausted:
  assumes "\<not> pollCount < maxPolls options"
  shows "waitForGenerationCompletion_from g options pollCount d w = (None, logger Err WaitTimedOut w)"
  using assms by (simp add: waitForGenerationCompletion_from.simps)

lemma completion_status_tick:
  assumes "plays w (status_response st [] # xs) rest" "st \<noteq> COMPLETE" "st \<noteq> FAILED"
    and "pollCount < maxPolls options"
  shows "\<exists>d' w'. waitForGenerationCompletion_from g options pollCount d w
            = waitForGenerationCompletion_from g options (pollCount + 1) d' w'
          \<and> plays w' xs rest \<and> fetch_count w' = fetch_count w + 1"
proof -
  have h: "network w (fetch_count w) = status_response st []"
    using assms(1) by (rule plays_head)
  have r: "fetchWithRetry_default (generation_request g) w
      = (Inr \<lparr>ok = True, status = 200, body_text = Inr [],
              json = Inr \<lparr>generations_by_pk = Some \<lparr>gen_status = st, generated_images = Some []\<rparr>,
                          uploadInitImage = None\<rparr>\<rparr>,
         (logger Debug (AttemptRequest 1 3) w)\<lparr>requests := requests w @ [generation_request g]\<rparr>)"
    using h by (intro fetchWithRetry_default_ok) (simp_all add: status_response_def)
  obtain d' w' where b: "waitForGenerationCompletion_body g options d w = (Continue d', w')"
    and n: "network w' = network w" and c: "fetch_count w' = fetch_count w + 1"
    using assms(2,3) r
    by (cases st) (simp_all add: waitForGenerationCompletion_body_def
        waitForGenerationCompletion_status_def world_ops Let_def)
  have "waitForGenerationCompletion_from g options pollCount d w
      = waitForGenerationCompletion_from g options (pollCount + 1) d' w'"
    using assms(4) b by (simp add: waitForGenerationCompletion_from.simps[of g options pollCount])
  moreover have "plays w' xs rest" using assms(1) n c by (rule plays_tail)
  ultimately show ?thesis using c by blast
qed

lemma completion_error_tick:
  assumes "plays w (Rejects e # Rejects e # Rejects e # xs) rest"
    and "pollCount < maxPolls options"
  shows "\<exists>d' w'. waitForGenerationCompletion_from g options pollCount d w
            = waitForGenerationCompletion_from g options (pollCount + 1) d' w'
          \<and> plays w' xs rest \<and> fetch_count w' = fetch_count w + 3"
proof -
  have h: "network w (fetch_count w) = Rejects e" "network w (fetch_count w + 1) = Rejects e"
    "network w (fetch_count w + 2) = Rejects e"
    using assms(1) unfolding plays_def script_def
    by (metis add.right_neutral length_Cons nth_Cons_0 zero_less_Suc,
        metis One_nat_def length_Cons less_Suc_eq_0_disj nth_Cons_0 nth_Cons_Suc,
        metis One_nat_def Suc_1 length_Cons less_Suc_eq_0_disj nth_Cons_0 nth_Cons_Suc)
  have r: "fetchWithRetry_default (generation_request g) w
      = (Inl e, after_rejections (generation_request g) w)"
    using h by (rule fetchWithRetry_default_rejected)
  define w' where "w' = logger Err PollingErrored (after_rejections (generation_request g) w)"
  have b: "waitForGenerationCompletion_body g options d w
      = (Continue (min (jmul d 2) (maxDelay options)), w')"
    using r by (simp add: waitForGenerationCompletion_body_def w'_def)
  have n: "network w' = network w" and c: "fetch_count w' = fetch_count w + 3"
    by (simp_all add: w'_def after_rejections_def world_ops)
  have "waitForGenerationCompletion_from g options pollCount d w
      = waitForGenerationCompletion_from g options (pollCount + 1) (min (jmul d 2) (maxDelay options)) w'"
    using assms(2) b by (simp add: waitForGenerationCompletion_from.simps[of g options pollCount])
  moreover have "plays w' xs rest"
    using plays_drop[of w "[Rejects e, Rejects e, Rejects e]" xs rest w'] assms(1) n c by simp
  ultimately show ?thesis using c by blast
qed

lemma completion_tick_step:
  assumes "plays w (completion_tick e t @ xs) rest" "keeps_waiting t"
    and "pollCount < maxPolls options"
  shows "\<exists>d' w'. waitForGenerationCompletion_from g options pollCount d w
            = waitForGenerationCompletion_from g options (pollCount + 1) d' w'
          \<and> plays w' xs rest
          \<and> fetch_count w' = fetch_count w + length (completion_tick e t)"
proof (cases t)
  case (StatusTick st)
  then show ?thesis
    using assms completion_status_tick[of w st xs rest pollCount options g d]
    by (simp add: completion_tick_def keeps_waiting_def)
next
  case ErrorTick
  then show ?thesis
    using assms completion_error_tick[of w e xs rest pollCount options g d]
    by (simp add: completion_tick_def numeral_3_eq_3)
qed

lemma completion_terminal:
  assumes "plays w (status_response st imgs # xs) rest" "st = COMPLETE \<or> st = FAILED"
    and "pollCount < maxPolls options"
  shows "fst (waitForGenerationCompletion_from g options pollCount d w)
      = (if st = COMPLETE \<and> truthy (case imgs of [] \<Rightarrow> None | img # others \<Rightarrow> image_id img)
         then (case imgs of [] \<Rightarrow> None | img # others \<Rightarrow> image_id img) else None)"
    and "fetch_count (snd (waitForGenerationCompletion_from g options pollCount d w))
      = fetch_count w + 1"
proof -
  have h: "network w (fetch_count w) = status_response st imgs"
    using assms(1) by (rule plays_head)
  have r: "fetchWithRetry_default (generation_request g) w
      = (Inr \<lparr>ok = True, status = 200, body_text = Inr [],
              json = Inr \<lparr>generations_by_pk = Some \<lparr>gen_status = st, generated_images = Some imgs\<rparr>,
                          uploadInitImage = None\<rparr>\<rparr>,
         (logger Debug (AttemptRequest 1 3) w)\<lparr>requests := requests w @ [generation_request g]\<rparr>)"
    using h by (intro fetchWithRetry_default_ok) (simp_all add: status_response_def)
  show "fst (waitForGenerationCompletion_from g options pollCount d w)
      = (if st = COMPLETE \<and> truthy (case imgs of [] \<Rightarrow> None | img # others \<Rightarrow> image_id img)
         then (case imgs of [] \<Rightarrow> None | img # others \<Rightarrow> image_id img) else None)"
    using assms(2,3) r
    by (auto simp add: waitForGenerationCompletion_from.simps[of g options pollCount]
        waitForGenerationCompletion_body_def waitForGenerationCompletion_status_def
        first_image_def world_ops Let_def split: list.splits)
  show "fetch_count (snd (waitForGenerationCompletion_from g options pollCount d w))
      = fetch_count w + 1"
    using assms(2,3) r
    by (auto simp add: waitForGenerationCompletion_from.simps[of g options pollCount]
        waitForGenerationCompletion_body_def waitForGenerationCompletion_status_def
        first_image_def world_ops Let_def split: list.splits)
qed

text \<open>
  The loop of \<open>waitForGenerationCompletion\<close> over any number of ticks followed by a
  terminal status: the terminal status is reached if and only if the ticks leave a unit
  of the budget.
\<close>

lemma completion_ticks:
  assumes "plays w (concat (map (completion_tick e) ticks) @ status_response st imgs # xs) rest"
    and "list_all keeps_waiting ticks" and "st = COMPLETE \<or> st = FAILED"
  shows "fst (waitForGenerationCompletion_from g options pollCount d w)
      = (if pollCount + int (length ticks) < maxPolls options \<and> st = COMPLETE
            \<and> truthy (case imgs of [] \<Rightarrow> None | img # others \<Rightarrow> image_id img)
         then (case imgs of [] \<Rightarrow> None | img # others \<Rightarrow> image_id img) else None)
     \<and> (pollCount + int (length ticks) < maxPolls options \<longrightarrow>
          fetch_count (snd (waitForGenerationCompletion_from g options pollCount d w))
            = fetch_count w + length (concat (map (completion_tick e) ticks)) + 1)"
  using assms(1,2)
proof (induction ticks arbitrary: pollCount d w)
  case Nil
  show ?case
  proof (cases "pollCount < maxPolls options")
    case True
    then show ?thesis
      using Nil completion_terminal[of w st imgs xs rest pollCount options g d] assms(3)
      by simp
  next
    case False
    then show ?thesis by (simp add: completion_exhausted)
  qed
next
  case (Cons t ticks)
  show ?case
  proof (cases "pollCount < maxPolls options")
    case True
    have p: "plays w (completion_tick e t @ (concat (map (completion_tick e) ticks)
        @ status_response st imgs # xs)) rest"
      using Cons.prems(1) by simp
    have nt: "keeps_waiting t" and nts: "list_all keeps_waiting ticks" using Cons.prems(2) by simp_all
    from completion_tick_step[OF p nt True, of g d] obtain d' w' where
      s: "waitForGenerationCompletion_from g options pollCount d w
            = waitForGenerationCompletion_from g options (pollCount + 1) d' w'"
      and p': "plays w' (concat (map (completion_tick e) ticks) @ status_response st imgs # xs) rest"
      and c: "fetch_count w' = fetch_count w + length (completion_tick e t)"
      by blast
    from Cons.IH[OF p' nts, of "pollCount + 1" d'] show ?thesis
      unfolding s using c by (simp add: add.assoc add.commute add.left_commute)
  next
    case False
    then show ?thesis by (simp add: completion_exhausted)
  qed
qed

subsection \<open>One iteration of \<open>waitForGenerationResultUrl\<close>\<close>

lemma result_url_exhausted:
  assumes "\<not> pollCount < MAX_POLLS"
  shows "waitForGenerationResultUrl_from g pollCount w
     = (failure wait_timeout_message, logger Err WaitTimedOut w)"
  using assms by (simp add: waitForGenerationResultUrl_from.simps)

lemma result_url_tick_step:
  assumes "plays w (result_url_tick code t @ xs) rest" "keeps_waiting t"
    and "pollCount < MAX_POLLS"
  shows "\<exists>w'. waitForGenerationResultUrl_from g pollCount w
            = waitForGenerationResultUrl_from g (pollCount + 1) w'
          \<and> plays w' xs rest \<and> fetch_count w' = fetch_count w + 1"
proof -
  obtain x where x: "result_url_tick code t = [x]"
    by (cases t) (simp_all add: result_url_tick_def)
  have p: "plays w (x # xs) rest" using assms(1) x by simp
  have h: "network w (fetch_count w) = x" using p by (rule plays_head)
  obtain w' where b: "waitForGenerationResultUrl_body g w = (Continue (), w')"
    and n: "network w' = network w" and c: "fetch_count w' = fetch_count w + 1"
  proof (cases t)
    case (StatusTick st)
    then have "x = status_response st []" and "st \<noteq> COMPLETE" and "st \<noteq> FAILED"
      using x assms(2) by (simp_all add: result_url_tick_def keeps_waiting_def)
    then show ?thesis using h that
      by (simp add: waitForGenerationResultUrl_body_def status_response_def world_ops Let_def)
  next
    case ErrorTick
    then have "x = error_response code" using x by (simp add: result_url_tick_def)
    then show ?thesis using h that
      by (simp add: waitForGenerationResultUrl_body_def error_response_def world_ops Let_def)
  qed
  have "waitForGenerationResultUrl_from g pollCount w
      = waitForGenerationResultUrl_from g (pollCount + 1) w'"
    using assms(3) b by (simp add: waitForGenerationResultUrl_from.simps[of g pollCount])
  moreover have "plays w' xs rest" using p n c by (rule plays_tail)
  ultimately show ?thesis using c by blast
qed

lemma result_url_terminal:
  assumes "plays w (x # xs) rest" "ends_wait x" "pollCount < MAX_POLLS"
  shows "fst (waitForGenerationResultUrl_from g pollCount w) = result_url_end x"
    and "fetch_count (snd (waitForGenerationResultUrl_from g pollCount w)) = fetch_count w + 1"
proof -
  have h: "network w (fetch_count w) = x" using assms(1) by (rule plays_head)
  show "fst (waitForGenerationResultUrl_from g pollCount w) = result_url_end x"
    using assms(2,3) h
    by (auto simp add: waitForGenerationResultUrl_from.simps[of g pollCount]
        waitForGenerationResultUrl_body_def result_url_end_def ends_wait_def world_ops Let_def
        truthy_def split: fetch_outcome.splits sum.splits option.splits)
  show "fetch_count (snd (waitForGenerationResultUrl_from g pollCount w)) = fetch_count w + 1"
    using assms(2,3) h
    by (auto simp add: waitForGenerationResultUrl_from.simps[of g pollCount]
        waitForGenerationResultUrl_body_def ends_wait_def world_ops Let_def
        split: fetch_outcome.splits sum.splits option.splits)
qed

lemma result_url_ticks:
  assumes "plays w (concat (map (result_url_tick code) ticks) @ x # xs) rest"
    and "list_all keeps_waiting ticks" and "ends_wait x"
  shows "fst (waitForGenerationResultUrl_from g pollCount w)
      = (if pollCount + int (length ticks) < MAX_POLLS then result_url_end x
         else failure wait_timeout_message)
     \<and> (pollCount + int (length ticks) < MAX_POLLS \<longrightarrow>
          fetch_count (snd (waitForGenerationResultUrl_from g pollCount w))
            = fetch_count w + length ticks + 1)"
  using assms(1,2)
proof (induction ticks arbitrary: pollCount w)
  case Nil
  show ?case
  proof (cases "pollCount < MAX_POLLS")
    case True
    then show ?thesis
      using Nil result_url_terminal[of w x xs rest pollCount g] assms(3) by simp
  next
    case False
    then show ?thesis by (simp add: result_url_exhausted)
  qed
next
  case (Cons t ticks)
  show ?case
  proof (cases "pollCount < MAX_POLLS")
    case True
    have p: "plays w (result_url_tick code t @ (concat (map (result_url_tick code) ticks)
        @ x # xs)) rest"
      using Cons.prems(1) by simp
    have nt: "keeps_waiting t" and nts: "list_all keeps_waiting ticks"
      using Cons.prems(2) by simp_all
    from result_url_tick_step[OF p nt True, of g] obtain w' where
      s: "waitForGenerationResultUrl_from g pollCount w
            = waitForGenerationResultUrl_from g (pollCount + 1) w'"
      and p': "plays w' (concat (map (result_url_tick code) ticks) @ x # xs) rest"
      and c: "fetch_count w' = fetch_count w + 1"
      by blast
    from Cons.IH[OF p' nts, of "pollCount + 1"] show ?thesis
      unfolding s using c by (simp add: add.assoc add.commute add.left_commute)
  next
    case False
    then show ?thesis by (simp add: result_url_exhausted)
  qed
qed

subsection \<open>The failures of the two waiting functions\<close>

text \<open>
  Claim C5 says that a FAILED job and an exhausted budget are told apart by what the
  waiter returns. \<open>waitForGenerationCompletion\<close> returns \<open>null\<close> for both: here with a
  budget of two polls, once on a remote side that reports FAILED and once on one that
  reports PENDING for ever.
\<close>

theorem completion_failure_and_timeout_both_null:
  "fst (waitForGenerationCompletion []
          \<lparr>maxPolls = 2, initialDelay = 3000, maxDelay = 10000\<rparr>
          (fresh_world (script [] (status_response FAILED [])))) = None
   \<and> fst (waitForGenerationCompletion []
          \<lparr>maxPolls = 2, initialDelay = 3000, maxDelay = 10000\<rparr>
          (fresh_world (script [] (status_response PENDING [])))) = None"
  by (simp add: wait_defs waitForGenerationCompletion_from.simps retry_defs
      fetchWithRetry_from.simps world_ops Let_def)

text \<open>
  Claim C5, amended. Let the remote side go through any ticks and then report FAILED.
  \<open>waitForGenerationResultUrl\<close> returns the failure "generation failed" when fewer than
  40 ticks come before the FAILED, and the failure "waiting for the generation timed
  out" otherwise; the two are different values. \<open>waitForGenerationCompletion\<close> returns
  \<open>null\<close> either way.
\<close>

theorem wait_failure_outcomes:
  assumes "list_all keeps_waiting ticks"
  shows "fst (waitForGenerationResultUrl g
           (fresh_world (script (concat (map (result_url_tick code) ticks)
              @ [status_response FAILED imgs]) rest)))
      = (if int (length ticks) < MAX_POLLS then failure generation_failed_message
         else failure wait_timeout_message)
   \<and> failure generation_failed_message \<noteq> failure wait_timeout_message
   \<and> fst (waitForGenerationCompletion g options
           (fresh_world (script (concat (map (completion_tick e) ticks)
              @ [status_response FAILED imgs]) rest))) = None"
proof -
  have en: "ends_wait (status_response FAILED imgs)"
    and re: "result_url_end (status_response FAILED imgs) = failure generation_failed_message"
    by (simp_all add: ends_wait_def result_url_end_def status_response_def)
  have "fst (waitForGenerationResultUrl_from g 0
           (fresh_world (script (concat (map (result_url_tick code) ticks)
              @ [status_response FAILED imgs]) rest)))
      = (if 0 + int (length ticks) < MAX_POLLS then result_url_end (status_response FAILED imgs)
         else failure wait_timeout_message)"
    using result_url_ticks[OF plays_fresh assms en, where code=code and xs="[]" and rest=rest
        and g=g and pollCount=0] by blast
  then have a: "fst (waitForGenerationResultUrl g
           (fresh_world (script (concat (map (result_url_tick code) ticks)
              @ [status_response FAILED imgs]) rest)))
      = (if int (length ticks) < MAX_POLLS then failure generation_failed_message
         else failure wait_timeout_message)"
    by (simp add: waitForGenerationResultUrl_def re)
  have b: "failure generation_failed_message \<noteq> failure wait_timeout_message"
    by (simp add: failure_def generation_failed_message_def wait_timeout_message_def)
  have "fst (waitForGenerationCompletion_from g options 0 (initialDelay options)
           (fresh_world (script (concat (map (completion_tick e) ticks)
              @ [status_response FAILED imgs]) rest))) = None"
    using completion_ticks[OF plays_fresh assms, where st=FAILED and e=e and imgs=imgs
        and xs="[]" and rest=rest and g=g and options=options and pollCount=0
        and d="initialDelay options"]
    by simp
  then have c: "fst (waitForGenerationCompletion g options
           (fresh_world (script (concat (map (completion_tick e) ticks)
              @ [status_response FAILED imgs]) rest))) = None"
    by (simp add: waitForGenerationCompletion_def)
  show ?thesis using a b c by blast
qed

theorem wait_failure_outcomes_witness:
  "list_all keeps_waiting [StatusTick PENDING, ErrorTick]
   \<and> fst (waitForGenerationResultUrl []
           (fresh_world (script (concat (map (result_url_tick 500) [StatusTick PENDING, ErrorTick])
              @ [status_response FAILED []]) (status_response PENDING []))))
      = failure generation_failed_message
   \<and> fst (waitForGenerationResultUrl []
           (fresh_world (script (concat (map (result_url_tick 500) (replicate 40 (StatusTick PENDING)))
              @ [status_response FAILED []]) (status_response PENDING []))))
      = failure wait_timeout_message
   \<and> failure generation_failed_message \<noteq> failure wait_timeout_message
   \<and> fst (waitForGenerationCompletion [] default_poll_options
           (fresh_world (script (concat (map (completion_tick (Error [])) [StatusTick PENDING, ErrorTick])
              @ [status_response FAILED []]) (status_response PENDING [])))) = None"
proof -
  have k: "list_all keeps_waiting [StatusTick PENDING, ErrorTick]"
    by (simp add: keeps_waiting_def)
  have k40: "list_all keeps_waiting (replicate 40 (StatusTick PENDING))"
    by (simp add: keeps_waiting_def list_all_length)
  show ?thesis
    using k wait_failure_outcomes[OF k, where g="[]" and code=500 and imgs="[]"
        and rest="status_response PENDING []" and options=default_poll_options and e="Error []"]
      wait_failure_outcomes[OF k40, where g="[]" and code=500 and imgs="[]"
        and rest="status_response PENDING []" and options=default_poll_options and e="Error []"]
    by (simp add: MAX_POLLS_def)
qed

subsection \<open>Errors while polling\<close>


subsection \<open>Attempts that fail\<close>





subsection \<open>Polls of \<open>waitForGenerationCompletion\<close> that do not end the wait\<close>






subsection \<open>Polls of \<open>waitForGenerationResultUrl\<close> that do not end the wait\<close>







section \<open>Uploading an image\<close>

lemmas upload_defs = uploadImage_def reserve_upload_def make_blob_def fallback_blob_def
  transfer_to_target_def

text \<open>
  Claim C10. Called with the empty string, \<open>uploadImage\<close> returns \<open>null\<close> and leaves the
  requests sent with \<open>fetch\<close>, the uploads posted and the delays awaited as they were:
  neither the request for the pre-signed URL nor the transfer is attempted. All it
  does is log the error that the image data is empty.
\<close>

theorem uploadImage_empty_argument:
  "fst (uploadImage env [] w) = None
   \<and> requests (snd (uploadImage env [] w)) = requests w
   \<and> uploads (snd (uploadImage env [] w)) = uploads w
   \<and> sleeps (snd (uploadImage env [] w)) = sleeps w
   \<and> log (snd (uploadImage env [] w)) = log w @ [(Err, ImageDataEmpty)]"
  by (simp add: uploadImage_def reserve_upload_def logger_def)

text \<open>The first step does not depend on what becomes of the transfer.\<close>

lemma fallback_blob_transfer_independent:
  "fallback_blob (env\<lparr>JSON_parse := parse, xhr := outcome\<rparr>) imageBase64 w
     = fallback_blob env imageBase64 w"
  by (simp add: fallback_blob_def Let_def split: list.splits)

lemma make_blob_transfer_independent:
  "make_blob (env\<lparr>JSON_parse := parse, xhr := outcome\<rparr>) imageBase64 w
     = make_blob env imageBase64 w"
  by (simp add: make_blob_def Let_def fallback_blob_transfer_independent split: sum.splits)

lemma reserve_upload_transfer_independent:
  "reserve_upload (env\<lparr>JSON_parse := parse, xhr := outcome\<rparr>) imageBase64 w
     = reserve_upload env imageBase64 w"
  by (simp add: reserve_upload_def make_blob_transfer_independent)

lemma transfer_returns_uploadId:
  "fst (transfer_to_target env target w) = Some (uploadId target)"
  by (simp add: transfer_to_target_def Let_def split: option.splits xhr_outcome.splits)

lemma transfer_failure_logged:
  assumes "transfer_failed (JSON_parse env (fieldsString target)) (xhr env)"
  shows "list_ex reports_problem (drop (length (log w)) (log (snd (transfer_to_target env target w))))"
  using assms
  by (auto simp add: transfer_to_target_def transfer_failed_def reports_problem_def logger_def
      Let_def split: option.splits xhr_outcome.splits)

text \<open>
  Claim C7. Whenever the first step of \<open>uploadImage\<close> has obtained the upload target,
  the function returns the \<open>uploadId\<close> of that target, whatever becomes of the transfer:
  whether the form fields parse or not, and whether the upload request is answered with
  any status, fails on the network or cannot be sent. When the transfer has failed, the
  part of the log written after the first step holds a warning or an error.
\<close>

theorem uploadImage_returns_reserved_id:
  assumes "fst (reserve_upload env imageBase64 w) = Some target"
  shows "fst (uploadImage (env\<lparr>JSON_parse := parse, xhr := outcome\<rparr>) imageBase64 w)
      = Some (uploadId target)
   \<and> (transfer_failed (parse (fieldsString target)) outcome \<longrightarrow>
        list_ex reports_problem
          (drop (length (log (snd (reserve_upload env imageBase64 w))))
             (log (snd (uploadImage (env\<lparr>JSON_parse := parse, xhr := outcome\<rparr>)
                         imageBase64 w)))))"
proof -
  obtain w' where r: "reserve_upload env imageBase64 w = (Some target, w')"
    using assms by (cases "reserve_upload env imageBase64 w") simp
  let ?env = "env\<lparr>JSON_parse := parse, xhr := outcome\<rparr>"
  have u: "uploadImage ?env imageBase64 w = transfer_to_target ?env target w'"
    using r by (simp add: uploadImage_def reserve_upload_transfer_independent)
  have a: "fst (uploadImage ?env imageBase64 w) = Some (uploadId target)"
    unfolding u by (rule transfer_returns_uploadId)
  have b: "list_ex reports_problem
             (drop (length (log w')) (log (snd (uploadImage ?env imageBase64 w))))"
    if "transfer_failed (parse (fieldsString target)) outcome"
    unfolding u using that by (intro transfer_failure_logged) simp
  show ?thesis using a b r by simp
qed

theorem uploadImage_returns_reserved_id_witness:
  "fst (reserve_upload example_browser (ascii ''data:image/png;base64,AAAA'')
          (fresh_world (script [init_image_response] (error_response 500))))
     = Some example_target
   \<and> transfer_failed (JSON_parse example_browser (fieldsString example_target)) XhrNetworkError
   \<and> fst (uploadImage (example_browser\<lparr>JSON_parse := JSON_parse example_browser,
                                         xhr := XhrNetworkError\<rparr>)
            (ascii ''data:image/png;base64,AAAA'')
            (fresh_world (script [init_image_response] (error_response 500))))
       = Some (ascii ''upload-1'')
   \<and> list_ex reports_problem
        (drop (length (log (snd (reserve_upload example_browser
                 (ascii ''data:image/png;base64,AAAA'')
                 (fresh_world (script [init_image_response] (error_response 500)))))))
           (log (snd (uploadImage (example_browser\<lparr>JSON_parse := JSON_parse example_browser,
                                                    xhr := XhrNetworkError\<rparr>)
                       (ascii ''data:image/png;base64,AAAA'')
                       (fresh_world (script [init_image_response] (error_response 500)))))))"
proof -
  have r: "fst (reserve_upload example_browser (ascii ''data:image/png;base64,AAAA'')
          (fresh_world (script [init_image_response] (error_response 500))))
     = Some example_target"
    by (simp add: reserve_upload_def make_blob_def example_browser_def startsWith_def ascii_def
        image_png_def image_jpeg_def init_image_request_def retry_defs
        fetchWithRetry_from.simps world_ops init_image_response_def example_target_def
        truthy_def Let_def)
  have t: "transfer_failed (JSON_parse example_browser (fieldsString example_target)) XhrNetworkError"
    by (simp add: transfer_failed_def example_browser_def)
  show ?thesis
    using r t uploadImage_returns_reserved_id[OF r, where parse="JSON_parse example_browser"
        and outcome=XhrNetworkError]
    by (simp add: example_target_def)
qed

section \<open>Element weights\<close>

lemmas weight_defs = stepSize_def lowerWeight_def upperWeight_def cuteEmotes_def
  jdiv_def jsub_def jadd_def jmul_def

lemma cuteEmotes_upper: "upperWeight cuteEmotes = 2"
  by (simp add: upperWeight_def cuteEmotes_def)

lemma cuteEmotes_stepSize_pos: "0 < stepSize isLeonardoProcess cuteEmotes"
proof (cases isLeonardoProcess)
  case True
  have "0 < stepSize True cuteEmotes" by code_simp
  then show ?thesis using True by simp
next
  case False
  have "0 < stepSize False cuteEmotes" by code_simp
  then show ?thesis using False by simp
qed

lemma cuteEmotes_range_exact:
  "fl (2 - lowerWeight isLeonardoProcess) = 2 - lowerWeight isLeonardoProcess"
proof (cases isLeonardoProcess)
  case True
  have "fl (2 - lowerWeight True) = 2 - lowerWeight True" by code_simp
  then show ?thesis using True by simp
next
  case False
  have "fl (2 - lowerWeight False) = 2 - lowerWeight False" by code_simp
  then show ?thesis using False by simp
qed

lemma cuteEmotes_last_step:
  "fl ((2 - lowerWeight isLeonardoProcess) / stepSize isLeonardoProcess cuteEmotes) = 50"
proof (cases isLeonardoProcess)
  case True
  have "fl ((2 - lowerWeight True) / stepSize True cuteEmotes) = 50" by code_simp
  then show ?thesis using True by simp
next
  case False
  have "fl ((2 - lowerWeight False) / stepSize False cuteEmotes) = 50" by code_simp
  then show ?thesis using False by simp
qed

lemma lowerWeight_le_2: "lowerWeight isLeonardoProcess \<le> 2"
  by (simp add: lowerWeight_def)

text \<open>A weight in the range is at a whole number of steps from 0 to 50.\<close>

lemma cuteEmotes_steps:
  assumes "lowerWeight isLeonardoProcess \<le> w" "w \<le> 2"
  shows "\<exists>n < 51. stepsOfWeight isLeonardoProcess cuteEmotes w = of_nat n"
proof -
  let ?lo = "lowerWeight isLeonardoProcess"
  let ?s = "stepSize isLeonardoProcess cuteEmotes"
  have s: "0 < ?s" by (rule cuteEmotes_stepSize_pos)
  have x0: "0 \<le> jsub w ?lo" unfolding jsub_def using assms(1) by (intro fl_nonneg) simp
  have "fl (w - ?lo) \<le> fl (2 - ?lo)" using assms by (intro fl_mono_nonneg) simp_all
  then have x1: "jsub w ?lo \<le> 2 - ?lo" by (simp add: jsub_def cuteEmotes_range_exact)
  have q0: "0 \<le> jdiv (jsub w ?lo) ?s" unfolding jdiv_def using x0 s by (intro fl_nonneg) simp
  have "fl (jsub w ?lo / ?s) \<le> fl ((2 - ?lo) / ?s)"
    using x0 x1 s by (intro fl_mono_nonneg) (simp_all add: divide_right_mono)
  then have q1: "jdiv (jsub w ?lo) ?s \<le> 50" by (simp add: jdiv_def cuteEmotes_last_step)
  define k where "k = \<lfloor>jdiv (jsub w ?lo) ?s + 1 / 2\<rfloor>"
  have k0: "0 \<le> k" unfolding k_def using q0 by (simp add: le_floor_iff)
  have k1: "k \<le> 50" unfolding k_def using q1 by (simp add: floor_le_iff)
  have "stepsOfWeight isLeonardoProcess cuteEmotes w = of_int k"
    by (simp add: stepsOfWeight_def Math_round_def k_def)
  also have "\<dots> = of_nat (nat k)" using k0 by simp
  finally have "stepsOfWeight isLeonardoProcess cuteEmotes w = of_nat (nat k)" .
  moreover have "nat k < 51" using k1 k0 by simp
  ultimately show ?thesis by blast
qed

lemma cuteEmotes_safeWeight:
  assumes "lowerWeight isLeonardoProcess \<le> w" "w \<le> 2"
  shows "\<exists>v. safeWeight isLeonardoProcess cuteEmotes w = Some v
     \<and> lowerWeight isLeonardoProcess \<le> v \<and> v \<le> 2
     \<and> v \<in> set (allowedWeights isLeonardoProcess cuteEmotes)"
proof -
  from cuteEmotes_steps[OF assms] obtain n where n: "n < 51"
    "stepsOfWeight isLeonardoProcess cuteEmotes w = of_nat n" by blast
  define v where "v = weightOfSteps isLeonardoProcess cuteEmotes (of_nat n)"
  have "safeWeight isLeonardoProcess cuteEmotes w = Some v"
    using cuteEmotes_stepSize_pos[of isLeonardoProcess] n(2) by (simp add: safeWeight_def v_def)
  moreover have "lowerWeight isLeonardoProcess \<le> v" "v \<le> 2"
    using lowerWeight_le_2[of isLeonardoProcess]
    by (simp_all add: v_def weightOfSteps_def Let_def cuteEmotes_upper)
  moreover have "v \<in> set (allowedWeights isLeonardoProcess cuteEmotes)"
    using n(1) by (simp add: allowedWeights_def v_def)
  ultimately show ?thesis by blast
qed

text \<open>The rounding moves a non-negative number by at most its \<open>2^-53\<close>-th part.\<close>

lemma fl_error_bound:
  assumes "0 \<le> x"
  shows "\<bar>fl x - x\<bar> \<le> x / 2 ^ 53"
proof (cases "x = 0")
  case True
  then show ?thesis by (simp add: fl_def)
next
  case False
  then have x: "0 < x" using assms by simp
  define u where "u = pow2 (ilog2 x - 52)"
  have u: "0 < u" by (simp add: u_def pow2_pos)
  have f: "fl x = of_int (round_even (x / u)) * u"
    using x by (simp add: fl_def u_def Let_def)
  have c52: "pow2 52 = 2 ^ 52" by (simp add: pow2_def)
  have "pow2 (ilog2 x) = 2 ^ 52 * u"
    using pow2_add[of 52 "ilog2 x - 52"] by (simp add: u_def c52)
  then have ux: "2 ^ 52 * u \<le> x" using ilog2_bounds(1)[OF x] by simp
  have "\<bar>of_int (round_even (x / u)) - x / u\<bar> \<le> 1 / 2"
    using round_even_bounds[of "x / u"] by linarith
  then have "\<bar>of_int (round_even (x / u)) - x / u\<bar> * u \<le> 1 / 2 * u"
    using u by (intro mult_right_mono) simp_all
  moreover have "(of_int (round_even (x / u)) - x / u) * u = fl x - x"
    using u by (simp add: f field_simps)
  then have "\<bar>of_int (round_even (x / u)) - x / u\<bar> * u = \<bar>fl x - x\<bar>"
    using u by (metis abs_mult abs_of_pos)
  ultimately have "\<bar>fl x - x\<bar> \<le> u / 2" by simp
  moreover have "u / 2 \<le> x / 2 ^ 53" using ux by simp
  ultimately show ?thesis by linarith
qed

lemma cuteEmotes_stepSize_near:
  "\<bar>stepSize isLeonardoProcess cuteEmotes - (2 - lowerWeight isLeonardoProcess) / 50\<bar>
     \<le> 1 / 2 ^ 58"
proof (cases isLeonardoProcess)
  case True
  have "\<bar>stepSize True cuteEmotes - (2 - lowerWeight True) / 50\<bar> \<le> 1 / 2 ^ 58"
    by code_simp
  then show ?thesis using True by simp
next
  case False
  have "\<bar>stepSize False cuteEmotes - (2 - lowerWeight False) / 50\<bar> \<le> 1 / 2 ^ 58"
    by code_simp
  then show ?thesis using False by simp
qed

text \<open>
  The weight made of \<open>k\<close> steps is within 0.006 of the exact
  \<open>minimum + k * (maximum - minimum) / 50\<close>; neighbouring steps are at least 0.025 apart.
\<close>

lemma weightOfSteps_near:
  assumes "k \<le> 50"
  shows "\<bar>weightOfSteps isLeonardoProcess cuteEmotes (of_nat k)
            - (lowerWeight isLeonardoProcess
               + of_nat k * ((2 - lowerWeight isLeonardoProcess) / 50))\<bar> < 3 / 500"
proof -
  define lo where "lo = lowerWeight isLeonardoProcess"
  define c where "c = (2 - lo) / 50"
  define S where "S = stepSize isLeonardoProcess cuteEmotes"
  define K :: rat where "K = of_nat k"
  define C where "C = lo + K * c"
  have lo: "1 / 2 \<le> lo" "lo \<le> 3 / 4" by (simp_all add: lo_def lowerWeight_def)
  have K: "0 \<le> K" "K \<le> 50" using assms by (simp_all add: K_def)
  have c: "0 < c" "c \<le> 3 / 100" using lo by (simp_all add: c_def)
  have Kc: "0 \<le> K * c" "K * c \<le> 50 * c" using K c by (simp_all add: mult_right_mono)
  have "50 * c = 2 - lo" by (simp add: c_def)
  then have C: "lo \<le> C" "C \<le> 2" using Kc by (simp_all add: C_def)
  define eps :: rat where "eps = 1 / 10 ^ 12"
  have "\<bar>S - c\<bar> \<le> 1 / 2 ^ 58"
    using cuteEmotes_stepSize_near[of isLeonardoProcess] by (simp add: S_def c_def lo_def)
  moreover have "(1 :: rat) / 2 ^ 58 \<le> eps" by (simp add: eps_def)
  ultimately have S: "\<bar>S - c\<bar> \<le> eps" by (rule order_trans)
  have tiny: "(4 :: rat) / 2 ^ 53 \<le> eps" by (simp add: eps_def)
  have eps: "0 \<le> eps" "eps \<le> 1 / 100000" by (simp_all add: eps_def)
  have S0: "0 < S" unfolding S_def by (rule cuteEmotes_stepSize_pos)
  define x where "x = K * S"
  have x0: "0 \<le> x" using K S0 by (simp add: x_def)
  have "x - K * c = K * (S - c)" by (simp add: x_def right_diff_distrib)
  then have "\<bar>x - K * c\<bar> = K * \<bar>S - c\<bar>"
    using K by (metis abs_mult abs_of_nonneg)
  also have "\<dots> \<le> 50 * eps" using K S by (intro mult_mono) simp_all
  finally have xe: "\<bar>x - K * c\<bar> \<le> 50 * eps" by simp
  have x2: "x \<le> 2" using xe Kc \<open>50 * c = 2 - lo\<close> lo eps by linarith
  define p where "p = jmul K S"
  have "\<bar>p - x\<bar> \<le> x / 2 ^ 53" unfolding p_def jmul_def x_def[symmetric]
    using x0 by (rule fl_error_bound)
  moreover have "x / 2 ^ 53 \<le> 4 / 2 ^ 53" using x2 by simp
  ultimately have pe: "\<bar>p - x\<bar> \<le> eps" using tiny by linarith
  have p0: "0 \<le> p" unfolding p_def jmul_def x_def[symmetric] using x0 by (rule fl_nonneg)
  define z where "z = lo + p"
  have z0: "0 \<le> z" using lo p0 by (simp add: z_def)
  have z4: "z \<le> 4" using pe x2 lo eps unfolding z_def by linarith
  define y where "y = jadd lo p"
  have "\<bar>y - z\<bar> \<le> z / 2 ^ 53" unfolding y_def jadd_def z_def[symmetric]
    using z0 by (rule fl_error_bound)
  moreover have "z / 2 ^ 53 \<le> 4 / 2 ^ 53" using z4 by simp
  ultimately have ye: "\<bar>y - z\<bar> \<le> eps" using tiny by linarith
  have y0: "0 \<le> y" unfolding y_def jadd_def z_def[symmetric] using z0 by (rule fl_nonneg)
  have yC: "\<bar>y - C\<bar> \<le> 52 * eps"
    using ye pe xe unfolding z_def C_def by linarith
  define n where "n = \<lfloor>y * 100 + 1 / 2\<rfloor>"
  define m :: rat where "m = of_int n / 100"
  have n0: "0 \<le> n" using y0 by (simp add: n_def le_floor_iff)
  have "of_int n \<le> y * 100 + 1 / 2" "y * 100 + 1 / 2 < of_int n + 1"
    unfolding n_def by linarith+
  then have my: "\<bar>m - y\<bar> \<le> 1 / 200" unfolding m_def by linarith
  have m0: "0 \<le> m" using n0 by (simp add: m_def)
  have m4: "m \<le> 4" using my yC C eps by linarith
  define t where "t = toFixed2 y"
  have t: "t = fl m" using y0 by (simp add: t_def toFixed2_def m_def n_def)
  have "\<bar>t - m\<bar> \<le> m / 2 ^ 53" unfolding t using m0 by (rule fl_error_bound)
  moreover have "m / 2 ^ 53 \<le> 4 / 2 ^ 53" using m4 by simp
  ultimately have te: "\<bar>t - m\<bar> \<le> eps" using tiny by linarith
  have tC: "\<bar>t - C\<bar> < 3 / 500" using te my yC eps by linarith
  have w: "weightOfSteps isLeonardoProcess cuteEmotes (of_nat k) = max lo (min 2 t)"
    by (simp add: weightOfSteps_def Let_def cuteEmotes_upper t_def y_def p_def lo_def S_def K_def)
  have "\<bar>max lo (min 2 t) - C\<bar> < 3 / 500" using tC C by linarith
  then show ?thesis unfolding w by (simp add: C_def c_def lo_def K_def)
qed

lemma weightOfSteps_strict:
  assumes "j < k" "k \<le> 50"
  shows "weightOfSteps isLeonardoProcess cuteEmotes (of_nat j)
     < weightOfSteps isLeonardoProcess cuteEmotes (of_nat k)"
proof -
  define lo where "lo = lowerWeight isLeonardoProcess"
  have lo: "lo \<le> 3 / 4" by (simp add: lo_def lowerWeight_def)
  have "Suc j \<le> k" using assms(1) by simp
  then have "(of_nat (Suc j) :: rat) \<le> of_nat k" by (simp only: of_nat_le_iff)
  then have "(of_nat j :: rat) + 1 \<le> of_nat k" by simp
  then have "(of_nat j + 1) * ((2 - lo) / 50) \<le> of_nat k * ((2 - lo) / 50)"
    using lo by (intro mult_right_mono) simp_all
  moreover have "(of_nat j + 1) * ((2 - lo) / 50) = of_nat j * ((2 - lo) / 50) + (2 - lo) / 50"
    by (simp only: distrib_right mult_1)
  moreover have "1 / 40 \<le> (2 - lo) / 50" using lo by simp
  ultimately have "of_nat j * ((2 - lo) / 50) + 1 / 40 \<le> of_nat k * ((2 - lo) / 50)"
    by linarith
  moreover have "j \<le> 50" using assms by simp
  note weightOfSteps_near[OF this, of isLeonardoProcess]
    weightOfSteps_near[OF assms(2), of isLeonardoProcess]
  ultimately show ?thesis unfolding lo_def by linarith
qed

lemma allowedWeights_distinct: "distinct (allowedWeights isLeonardoProcess cuteEmotes)"
proof -
  have "inj_on (\<lambda>k. weightOfSteps isLeonardoProcess cuteEmotes (of_nat k)) (set [0..<51])"
  proof (rule inj_onI)
    fix j k
    assume jk: "j \<in> set [0..<51]" "k \<in> set [0..<51]"
      and eq: "weightOfSteps isLeonardoProcess cuteEmotes (of_nat j)
             = weightOfSteps isLeonardoProcess cuteEmotes (of_nat k)"
    show "j = k"
    proof (rule ccontr)
      assume "j \<noteq> k"
      then consider "j < k" | "k < j" by linarith
      then show False
        using weightOfSteps_strict[of j k isLeonardoProcess]
          weightOfSteps_strict[of k j isLeonardoProcess] jk eq
        by cases simp_all
    qed
  qed
  then show ?thesis by (simp add: allowedWeights_def distinct_map)
qed

lemma allowedWeights_length: "length (allowedWeights isLeonardoProcess element) = 51"
  by (simp add: allowedWeights_def)

lemma find_available:
  assumes "find (\<lambda>e. akUUID e = elementId) getAvailableElements = Some element"
  shows "element = cuteEmotes"
  using assms by (simp add: getAvailableElements_def split: if_splits)

lemma compatibleElements_weights:
  assumes "list_all (weight_in_range isLeonardoProcess) elements"
    and "(uuid, v) \<in> set (fst (compatibleElements elements modelId isLeonardoProcess lg))"
  shows "\<exists>x. v = Some x \<and> lowerWeight isLeonardoProcess \<le> x \<and> x \<le> upperWeight cuteEmotes
     \<and> x \<in> set (allowedWeights isLeonardoProcess cuteEmotes)"
  using assms
proof (induction elements arbitrary: lg)
  case Nil
  then show ?case by simp
next
  case (Cons selected elements)
  obtain elementId w where sel: "selected = (elementId, w)" by (cases selected)
  have rest: "list_all (weight_in_range isLeonardoProcess) elements"
    and here: "weight_in_range isLeonardoProcess (elementId, w)"
    using Cons.prems(1) sel by simp_all
  show ?case
  proof (cases "find (\<lambda>e. akUUID e = elementId) getAvailableElements")
    case None
    then show ?thesis using Cons.IH[OF rest] Cons.prems(2) sel by simp
  next
    case (Some element)
    then have el: "element = cuteEmotes" by (rule find_available)
    have range: "lowerWeight isLeonardoProcess \<le> w" "w \<le> 2"
      using here Some el by (simp_all add: weight_in_range_def cuteEmotes_upper)
    show ?thesis
    proof (cases "isCompatible element modelId")
      case False
      then show ?thesis using Cons.IH[OF rest] Cons.prems(2) sel Some by simp
    next
      case True
      let ?lg = "lg @ [(Info, ElementAdded (name element))]"
      from Cons.prems(2) have
        "(uuid, v) = (akUUID element, safeWeight isLeonardoProcess element w)
         \<or> (uuid, v) \<in> set (fst (compatibleElements elements modelId isLeonardoProcess ?lg))"
        using sel Some True by (simp split: prod.splits)
      then show ?thesis
      proof
        assume "(uuid, v) = (akUUID element, safeWeight isLeonardoProcess element w)"
        then have "v = safeWeight isLeonardoProcess cuteEmotes w" using el by simp
        then show ?thesis
          using cuteEmotes_safeWeight[OF range] by (auto simp add: cuteEmotes_upper)
      next
        assume "(uuid, v) \<in> set (fst (compatibleElements elements modelId isLeonardoProcess ?lg))"
        then show ?thesis using Cons.IH[OF rest] by blast
      qed
    qed
  qed
qed

text \<open>
  Claim C8. Let every selected element of the table come with a weight between the
  minimum of the mode (0.75 for the call of \<open>processWithImageToImageAndStyle\<close>, 0.5
  otherwise) and the maximum the element declares. Then every weight that
  \<open>safelyAddElements\<close> stores in the payload is a number between that minimum and that
  maximum, and is one of the weights of the steps 0 to 50, which are 51 different
  numbers. The weight of a step is the step value printed with two decimals.
\<close>

theorem safelyAddElements_weights:
  assumes "list_all (weight_in_range isLeonardoProcess) elements"
    and "fst (safelyAddElements None elements modelId isLeonardoProcess lg) = Some stored"
    and "(uuid, v) \<in> set stored"
  shows "\<exists>x. v = Some x
     \<and> lowerWeight isLeonardoProcess \<le> x \<and> x \<le> upperWeight cuteEmotes
     \<and> x \<in> set (allowedWeights isLeonardoProcess cuteEmotes)
     \<and> length (allowedWeights isLeonardoProcess cuteEmotes) = 51
     \<and> distinct (allowedWeights isLeonardoProcess cuteEmotes)"
proof -
  have "stored = fst (compatibleElements elements modelId isLeonardoProcess lg)"
    using assms(2) by (auto simp add: safelyAddElements_def split: if_splits prod.splits)
  then have "(uuid, v) \<in> set (fst (compatibleElements elements modelId isLeonardoProcess lg))"
    using assms(3) by simp
  from compatibleElements_weights[OF assms(1) this] show ?thesis
    using allowedWeights_length[of isLeonardoProcess cuteEmotes]
      allowedWeights_distinct[of isLeonardoProcess] by blast
qed

theorem safelyAddElements_weights_witness:
  "list_all (weight_in_range True) [(akUUID cuteEmotes, 1)]
   \<and> fst (safelyAddElements None [(akUUID cuteEmotes, 1)] ANIME_XL True [])
       = Some [(akUUID cuteEmotes, safeWeight True cuteEmotes 1)]
   \<and> (\<exists>x. safeWeight True cuteEmotes 1 = Some x
        \<and> lowerWeight True \<le> x \<and> x \<le> upperWeight cuteEmotes
        \<and> x \<in> set (allowedWeights True cuteEmotes)
        \<and> length (allowedWeights True cuteEmotes) = 51
        \<and> distinct (allowedWeights True cuteEmotes))"
proof -
  have a: "list_all (weight_in_range True) [(akUUID cuteEmotes, 1)]"
    by (simp add: weight_in_range_def getAvailableElements_def lowerWeight_def cuteEmotes_upper)
  have b: "fst (safelyAddElements None [(akUUID cuteEmotes, 1)] ANIME_XL True [])
       = Some [(akUUID cuteEmotes, safeWeight True cuteEmotes 1)]"
    by (simp add: safelyAddElements_def getAvailableElements_def isCompatible_def)
      (simp add: cuteEmotes_def)
  show ?thesis
    using a b safelyAddElements_weights[OF a b, of "akUUID cuteEmotes" "safeWeight True cuteEmotes 1"]
    by simp
qed

section \<open>The description parser\<close>





















lemma solid_not_blank: "solid_line l \<Longrightarrow> \<not> list_all is_space l"
  by (auto simp add: solid_line_def list_ex_iff list_all_iff)












end
